theory Spec2Isabelle
  imports Main "HOL-Library.Char_ord" "HOL-Library.List_Lexorder" "HOL-Library.Sublist"
    "HOL-Library.Multiset"
begin

section \<open>JavaScript strings\<close>

text \<open>
  The program is TypeScript. Strings are modelled as \<^typ>\<open>string\<close>, a character
  being a code unit below 256; their order (\<open><\<close> on strings, the default order of
  \<open>Array.prototype.sort\<close>) is the lexicographic order on character codes, which is the
  order of the type class instance for lists of characters.
\<close>

text \<open>\<open>s.startsWith(p)\<close> and \<open>s.endsWith(p)\<close>.\<close>

definition startsWith :: "string \<Rightarrow> string \<Rightarrow> bool" where
  "startsWith s p = prefix p s"

definition endsWith :: "string \<Rightarrow> string \<Rightarrow> bool" where
  "endsWith s p = suffix p s"

text \<open>
  \<open>s.substring(i, j)\<close> on natural indices: both indices are clamped to the length
  and swapped when \<open>i > j\<close>.
\<close>

definition substring :: "string \<Rightarrow> nat \<Rightarrow> nat \<Rightarrow> string" where
  "substring s i j =
     (let a = min i (length s); b = min j (length s)
      in take (max a b - min a b) (drop (min a b) s))"

text \<open>\<open>s.split(c)\<close> for a one-character separator: never the empty array.\<close>

fun split_on :: "char \<Rightarrow> string \<Rightarrow> string list" where
  "split_on c [] = [[]]"
| "split_on c (x # xs) =
     (if x = c then [] # split_on c xs
      else (case split_on c xs of
              [] \<Rightarrow> [[x]]
            | w # ws \<Rightarrow> (x # w) # ws))"

text \<open>\<open>ws.join(sep)\<close>.\<close>

fun join_str :: "string \<Rightarrow> string list \<Rightarrow> string" where
  "join_str sep [] = []"
| "join_str sep [w] = w"
| "join_str sep (w # v # ws) = w @ sep @ join_str sep (v # ws)"

text \<open>
  \<open>parseInt(s, 10)\<close>: leading white space is skipped, one sign is read, then the
  longest run of decimal digits; \<open>None\<close> is \<open>NaN\<close> (no digit). Characters after
  the digits are ignored. The result is used only for its truthiness, so the value is kept as
  an integer (a JavaScript number is falsy exactly when it is \<open>NaN\<close>, \<open>0\<close> or
  \<open>-0\<close>, and a non-zero integer never rounds to zero).
\<close>

definition isWhiteSpace :: "char \<Rightarrow> bool" where
  "isWhiteSpace c =
     (c \<in> set [CHR 0x09, CHR 0x0A, CHR 0x0B, CHR 0x0C, CHR 0x0D, CHR '' '', CHR 0xA0])"

definition isDigit :: "char \<Rightarrow> bool" where
  "isDigit c = (CHR ''0'' \<le> c \<and> c \<le> CHR ''9'')"

definition digitVal :: "char \<Rightarrow> nat" where
  "digitVal c = of_char c - of_char CHR ''0''"

definition decimal :: "string \<Rightarrow> nat" where
  "decimal ds = foldl (\<lambda>a d. 10 * a + digitVal d) 0 ds"

definition parseInt :: "string \<Rightarrow> int option" where
  "parseInt s =
     (let t = dropWhile isWhiteSpace s;
          neg = (t \<noteq> [] \<and> hd t = CHR ''-'');
          u = (if t \<noteq> [] \<and> (hd t = CHR ''-'' \<or> hd t = CHR ''+'') then tl t else t);
          ds = takeWhile isDigit u
      in if ds = [] then None
         else Some (if neg then - int (decimal ds) else int (decimal ds)))"

text \<open>\<open>!x\<close> for the result of \<open>parseInt\<close>.\<close>

definition falsy_number :: "int option \<Rightarrow> bool" where
  "falsy_number x = (case x of None \<Rightarrow> True | Some n \<Rightarrow> n = 0)"

text \<open>
  The version test of \<open>PartBranch.Tasks\<close>: the file is skipped when
  \<open>!version.startsWith("v") || !parseInt(version.substring(1), 10)\<close>.
\<close>

definition version_rejected :: "string \<Rightarrow> bool" where
  "version_rejected version =
     (\<not> startsWith version ''v'' \<or>
      falsy_number (parseInt (substring version 1 (length version))))"

text \<open>\<open>compare(a, b)\<close>: \<open>-1\<close>, \<open>1\<close> or \<open>0\<close>.\<close>

definition compare :: "string \<Rightarrow> string \<Rightarrow> int" where
  "compare a b = (if a < b then - 1 else if a > b then 1 else 0)"

text \<open>
  The default \<open>sort()\<close> of an array of strings and \<open>sort(cmp)\<close>: a stable
  insertion sort driven by the comparator.
\<close>

fun insert_by :: "('a \<Rightarrow> 'a \<Rightarrow> int) \<Rightarrow> 'a \<Rightarrow> 'a list \<Rightarrow> 'a list" where
  "insert_by cmp x [] = [x]"
| "insert_by cmp x (y # ys) = (if cmp x y \<le> 0 then x # y # ys else y # insert_by cmp x ys)"

definition sort_by :: "('a \<Rightarrow> 'a \<Rightarrow> int) \<Rightarrow> 'a list \<Rightarrow> 'a list" where
  "sort_by cmp xs = foldr (insert_by cmp) xs []"

definition string_sort :: "string list \<Rightarrow> string list" where
  "string_sort xs = sort_by (\<lambda>a b. if a < b then - 1 else if b < a then 1 else 0) xs"

text \<open>
  A number written into a string, and \<open>null\<close> and \<open>undefined\<close> written into a
  string.
\<close>

fun string_of_nat :: "nat \<Rightarrow> string" where
  "string_of_nat n =
     (if n < 10 then [''0123456789'' ! n]
      else string_of_nat (n div 10) @ [''0123456789'' ! (n mod 10)])"

declare string_of_nat.simps [simp del]

definition string_of_int :: "int \<Rightarrow> string" where
  "string_of_int n = (if n < 0 then ''-'' @ string_of_nat (nat (- n)) else string_of_nat (nat n))"

definition to_text :: "string option \<Rightarrow> string" where
  "to_text v = (case v of None \<Rightarrow> ''undefined'' | Some s \<Rightarrow> s)"

section \<open>Errors and plain-object lookups\<close>

text \<open>
  Every \<open>throw\<close> is a value. \<open>Error msg\<close> is \<open>throw Error(msg)\<close> (and the
  bare \<open>throw(msg)\<close> of \<open>validateDir\<close> and \<open>subdir\<close>); messages the source
  writes in Korean are given in English. \<open>TypeError\<close> is an error of the JavaScript
  runtime or of an argument check of Node (a property of \<open>undefined\<close>, a value that cannot
  be iterated, \<open>in\<close> on a value that is not an object, a path that is not a string, a file
  mode that is not octal) and \<open>RangeError\<close> a file mode beyond 32 bits.
  \<open>SystemError code path\<close> is an error of a file-system call. \<open>ChildError\<close> is what
  \<open>execFileSync\<close> or \<open>spawn\<close> of \<open>child_process\<close> throws or reports for a
  command, with its text.
\<close>

datatype error =
    Error string
  | TypeError
  | RangeError
  | SystemError string string
  | ChildError string

text \<open>
  \<open>obj[k]\<close> on a plain object (\<open>{}\<close> or a parsed JSON object): an own property wins;
  otherwise a name of \<open>Object.prototype\<close> yields an inherited function or object, which
  is truthy and has none of the fields the program reads; otherwise \<open>undefined\<close>. An
  object is an association list with distinct keys.
\<close>

definition Object_prototype_keys :: "string list" where
  "Object_prototype_keys =
     [''constructor'', ''__proto__'', ''hasOwnProperty'', ''isPrototypeOf'',
      ''propertyIsEnumerable'', ''toLocaleString'', ''toString'', ''valueOf'',
      ''__defineGetter__'', ''__defineSetter__'', ''__lookupGetter__'', ''__lookupSetter__'']"

datatype 'a lookup = Own 'a | Inherited | Missing

definition js_lookup :: "(string \<times> 'a) list \<Rightarrow> string \<Rightarrow> 'a lookup" where
  "js_lookup obj k =
     (case map_of obj k of
        Some v \<Rightarrow> Own v
      | None \<Rightarrow> if k \<in> set Object_prototype_keys then Inherited else Missing)"

text \<open>\<open>Object.keys(obj)\<close> and the keys a \<open>for ... in\<close> loop visits: own keys only.\<close>

definition own_keys :: "(string \<times> 'a) list \<Rightarrow> string list" where
  "own_keys obj = remdups (map fst obj)"

text \<open>\<open>obj[k] = v\<close> on a plain object: a new key goes last, a key it has keeps its place.\<close>

definition js_set :: "string \<Rightarrow> 'a \<Rightarrow> (string \<times> 'a) list \<Rightarrow> (string \<times> 'a) list" where
  "js_set k v obj =
     (if k \<in> fst ` set obj then map (\<lambda>e. if fst e = k then (k, v) else e) obj
      else obj @ [(k, v)])"

section \<open>Paths\<close>

text \<open>
  \<open>path.join\<close> and \<open>path.normalize\<close> of Node, with the POSIX separator. A segment
  that is empty or \<open>.\<close> is dropped, \<open>..\<close> removes the segment before it; only a
  relative path keeps leading \<open>..\<close> segments. A trailing separator is kept.
\<close>

definition norm_step :: "bool \<Rightarrow> string list \<Rightarrow> string \<Rightarrow> string list" where
  "norm_step allowAboveRoot res seg =
     (if seg = [] \<or> seg = ''.'' then res
      else if seg = ''..'' then
        (if res \<noteq> [] \<and> last res \<noteq> ''..'' then butlast res
         else if allowAboveRoot then res @ [''..'']
         else res)
      else res @ [seg])"

definition normalizeString :: "string \<Rightarrow> bool \<Rightarrow> string" where
  "normalizeString p allowAboveRoot =
     join_str ''/'' (foldl (norm_step allowAboveRoot) [] (split_on CHR ''/'' p))"

definition normalize_path :: "string \<Rightarrow> string" where
  "normalize_path p =
     (if p = [] then ''.''
      else
        let isAbsolute = (hd p = CHR ''/'');
            trailingSeparator = (last p = CHR ''/'');
            q = normalizeString p (\<not> isAbsolute)
        in if q = [] then (if isAbsolute then ''/'' else if trailingSeparator then ''./'' else ''.'')
           else (if isAbsolute then ''/'' else []) @ q @ (if trailingSeparator then ''/'' else []))"

definition path_join :: "string \<Rightarrow> string \<Rightarrow> string" where
  "path_join a b =
     (let joined = (if a = [] then b else if b = [] then a else a @ ''/'' @ b)
      in if joined = [] then ''.'' else normalize_path joined)"

section \<open>The file system\<close>

text \<open>
  The file system is a table from the place of a node (the names from the root down to it) to
  the node, in the order the system lists them. A directory carries the mode last set by
  \<open>chmod\<close> (\<open>None\<close>: the mode it was created with) and the access grants of
  \<open>icacls\<close>. The root is a directory and the working directory. Links and access rights
  are not modelled.
\<close>

datatype node = File | Directory "nat option" "string list"

type_synonym fs = "(string list \<times> node) list"

definition node_at :: "fs \<Rightarrow> string list \<Rightarrow> node option" where
  "node_at fs k = (if k = [] then Some (Directory None []) else map_of fs k)"

text \<open>
  The system follows a path segment by segment: the place it stands at must be a directory
  before it reads the next segment, also when that segment is empty, \<open>.\<close> or \<open>..\<close>; a
  trailing separator therefore asks for a directory. Node refuses a path that holds a null
  character before it asks the system.
\<close>

definition enter :: "string list \<Rightarrow> string \<Rightarrow> string list" where
  "enter cur c =
     (if c = [] \<or> c = ''.'' then cur else if c = ''..'' then butlast cur else cur @ [c])"

fun walk :: "fs \<Rightarrow> string list \<Rightarrow> string list \<Rightarrow> string + string list" where
  "walk fs cur [] = Inr cur"
| "walk fs cur (c # cs) =
     (case node_at fs cur of
        None \<Rightarrow> Inl ''ENOENT''
      | Some File \<Rightarrow> Inl ''ENOTDIR''
      | Some (Directory m a) \<Rightarrow> walk fs (enter cur c) cs)"

definition locate :: "fs \<Rightarrow> string \<Rightarrow> error + string list \<times> node" where
  "locate fs p =
     (if CHR 0x00 \<in> set p then Inl TypeError
      else if p = [] then Inl (SystemError ''ENOENT'' p)
      else case walk fs [] (split_on CHR ''/'' p) of
             Inl code \<Rightarrow> Inl (SystemError code p)
           | Inr k \<Rightarrow>
               (case node_at fs k of
                  None \<Rightarrow> Inl (SystemError ''ENOENT'' p)
                | Some n \<Rightarrow> Inr (k, n)))"

text \<open>\<open>fs.existsSync(p)\<close>.\<close>

definition existsSync :: "fs \<Rightarrow> string \<Rightarrow> bool" where
  "existsSync fs p = (case locate fs p of Inl e \<Rightarrow> False | Inr kn \<Rightarrow> True)"

text \<open>\<open>fs.lstatSync(p)\<close>: the node, or the error.\<close>

definition lstatSync :: "fs \<Rightarrow> string \<Rightarrow> error + node" where
  "lstatSync fs p = (case locate fs p of Inl e \<Rightarrow> Inl e | Inr kn \<Rightarrow> Inr (snd kn))"

text \<open>\<open>fs.readdirSync(p)\<close>: the names in the directory, in the system's order.\<close>

definition children :: "fs \<Rightarrow> string list \<Rightarrow> string list" where
  "children fs k = map (\<lambda>e. last (fst e)) (filter (\<lambda>e. fst e \<noteq> [] \<and> butlast (fst e) = k) fs)"

definition readdirSync :: "fs \<Rightarrow> string \<Rightarrow> error + string list" where
  "readdirSync fs p =
     (case locate fs p of
        Inl e \<Rightarrow> Inl e
      | Inr kn \<Rightarrow>
          (case snd kn of
             File \<Rightarrow> Inl (SystemError ''ENOTDIR'' p)
           | Directory m a \<Rightarrow> Inr (children fs (fst kn))))"

text \<open>
  \<open>fs.mkdirSync(p)\<close>, not recursive. Trailing separators are dropped, the path before the
  last segment is followed, and the last segment names the new directory.
\<close>

definition strip_trailing :: "string list \<Rightarrow> string list" where
  "strip_trailing cs = rev (dropWhile (\<lambda>c. c = []) (rev cs))"

definition mkdirSync :: "fs \<Rightarrow> string \<Rightarrow> error + fs" where
  "mkdirSync fs p =
     (if CHR 0x00 \<in> set p then Inl TypeError
      else if p = [] then Inl (SystemError ''ENOENT'' p)
      else
        let cs = strip_trailing (split_on CHR ''/'' p) in
        if cs = [] then Inl (SystemError ''EEXIST'' p)
        else case walk fs [] (butlast cs) of
               Inl code \<Rightarrow> Inl (SystemError code p)
             | Inr k \<Rightarrow>
                 (case node_at fs k of
                    None \<Rightarrow> Inl (SystemError ''ENOENT'' p)
                  | Some File \<Rightarrow> Inl (SystemError ''ENOTDIR'' p)
                  | Some (Directory m a) \<Rightarrow>
                      if last cs = ''.'' \<or> last cs = ''..'' then Inl (SystemError ''EEXIST'' p)
                      else if node_at fs (k @ [last cs]) \<noteq> None then Inl (SystemError ''EEXIST'' p)
                      else Inr (fs @ [(k @ [last cs], Directory None [])])))"

text \<open>
  \<open>fs.chmodSync(p, perm)\<close> with a string mode: Node accepts octal digits only, reads
  them in base 8 and refuses a value of 32 bits or more; the system keeps the low twelve bits.
\<close>

definition isOctal :: "char \<Rightarrow> bool" where
  "isOctal c = (CHR ''0'' \<le> c \<and> c \<le> CHR ''7'')"

definition parseFileMode :: "string \<Rightarrow> error + nat" where
  "parseFileMode perm =
     (if perm = [] \<or> \<not> list_all isOctal perm then Inl TypeError
      else
        let m = foldl (\<lambda>a d. 8 * a + digitVal d) 0 perm in
        if m < 2 ^ 32 then Inr m else Inl RangeError)"

definition set_mode :: "nat \<Rightarrow> node \<Rightarrow> node" where
  "set_mode m n = (case n of File \<Rightarrow> File | Directory m0 a \<Rightarrow> Directory (Some (m mod 4096)) a)"

definition add_grant :: "string \<Rightarrow> node \<Rightarrow> node" where
  "add_grant u n = (case n of File \<Rightarrow> File | Directory m a \<Rightarrow> Directory m (a @ [u]))"

definition update_node :: "string list \<Rightarrow> (node \<Rightarrow> node) \<Rightarrow> fs \<Rightarrow> fs" where
  "update_node k f fs = map (\<lambda>e. if fst e = k then (fst e, f (snd e)) else e) fs"

definition chmodSync :: "fs \<Rightarrow> string \<Rightarrow> string \<Rightarrow> error + fs" where
  "chmodSync fs p perm =
     (case parseFileMode perm of
        Inl e \<Rightarrow> Inl e
      | Inr m \<Rightarrow>
          (case locate fs p of
             Inl e \<Rightarrow> Inl e
           | Inr kn \<Rightarrow> Inr (update_node (fst kn) (set_mode m) fs)))"

section \<open>Child processes\<close>

text \<open>
  A call of \<open>execFileSync\<close> or \<open>spawn\<close> of \<open>child_process\<close>: the file, the
  arguments, the \<open>env\<close> option (\<open>None\<close>: not given, the child inherits the
  environment of the process) and the names of the other options given as \<open>true\<close>.
\<close>

record launch =
  l_file :: string
  l_args :: "string list"
  l_env :: "(string \<times> string) list option"
  l_flags :: "string list"

text \<open>
  What a started child emits: a chunk of its standard error, its exit with a code
  (\<open>None\<close> is \<open>null\<close>, a child ended by a signal), or an error of the process object
  (Node reports some failures to start this way). \<open>proc.spawn\<close> either throws at once
  (Node does so for the other failures to start) or returns the child.
\<close>

datatype event = Data string | Exit "int option" | Failed error

datatype spawned = Thrown error | Child "event list"

text \<open>
  The host of the process: \<open>process.platform\<close>, \<open>process.env\<close>, and what the
  system does with the commands the program runs: whether \<open>icacls path /grant user\<close>
  exits with status 0, what \<open>execFileSync\<close> of a launcher command throws (if anything)
  and leaves as the file system, and what \<open>proc.spawn\<close> gives.
\<close>

record host =
  platform :: string
  process_env :: "(string \<times> string) list"
  icacls_ok :: "string \<Rightarrow> string \<Rightarrow> bool"
  execFileSync_outcome :: "launch \<Rightarrow> fs \<Rightarrow> error option \<times> fs"
  spawn_outcome :: "launch \<Rightarrow> spawned"

definition execFileSync :: "host \<Rightarrow> launch \<Rightarrow> fs \<Rightarrow> (error + unit) \<times> fs" where
  "execFileSync h l fs =
     (case execFileSync_outcome h l fs of
        (None, fs') \<Rightarrow> (Inr (), fs')
      | (Some e, fs') \<Rightarrow> (Inl e, fs'))"

text \<open>
  \<open>spawn(cmd, args, opts, handleError)\<close> calls \<open>proc.spawn\<close> and, when that
  returns, registers three handlers. The model runs the handlers over the events of the child.
  The state is the text captured so far and the errors passed to \<open>handleError\<close>, oldest
  first. The result is the error thrown by \<open>proc.spawn\<close>, if any, and the state after
  the last event.
\<close>

record spawn_state =
  stderr :: string
  handled :: "error list"

definition string_of_code :: "int option \<Rightarrow> string" where
  "string_of_code code = (case code of None \<Rightarrow> ''null'' | Some n \<Rightarrow> string_of_int n)"

definition on_event :: "spawn_state \<Rightarrow> event \<Rightarrow> spawn_state" where
  "on_event st ev =
     (case ev of
        Data d \<Rightarrow> st\<lparr>stderr := stderr st @ d\<rparr>
      | Exit code \<Rightarrow>
          if code \<noteq> Some 0
          then st\<lparr>handled := handled st @
                   [Error (''exit with error '' @ string_of_code code @ '': '' @ stderr st)]\<rparr>
          else st
      | Failed err \<Rightarrow> st\<lparr>handled := handled st @ [err]\<rparr>)"

definition spawn :: "host \<Rightarrow> launch \<Rightarrow> error option \<times> spawn_state" where
  "spawn h l =
     (case spawn_outcome h l of
        Thrown e \<Rightarrow> (Some e, \<lparr>stderr = [], handled = []\<rparr>)
      | Child evs \<Rightarrow> (None, foldl on_event \<lparr>stderr = [], handled = []\<rparr> evs))"

section \<open>The schema and the globals of the module\<close>

text \<open>
  The interfaces \<open>Dir\<close>, \<open>BranchInfo\<close>, \<open>PartInfo\<close>, \<open>Program\<close> and
  \<open>SiteInfo\<close>. Objects indexed by a name (categories, parts, programs, the commands per
  operating system) are association lists. An entry of \<open>categories\<close> holds the branch
  information of \<open>group\<close> and \<open>unit\<close> and the parts by name.
\<close>

record DirSpec =
  dir_Name :: string
  dir_Perm :: string

record BranchInfo =
  info_Label :: string
  info_Subdirs :: "DirSpec list"
  info_ChildRoot :: string

record PartInfo =
  part_Label :: string
  part_Subdirs :: "DirSpec list"
  part_ProgramDir :: "(string \<times> string) list"

record Program =
  prog_Name :: string
  prog_Ext :: string
  prog_CreateCmd :: "(string \<times> string) list"
  prog_OpenCmd :: "(string \<times> string) list"

record CategoryInfo =
  ctg_group :: BranchInfo
  ctg_unit :: BranchInfo
  ctg_part :: "(string \<times> PartInfo) list"

record SiteInfo =
  site_show :: BranchInfo
  site_category :: BranchInfo
  site_categories :: "(string \<times> CategoryInfo) list"
  site_programs :: "(string \<times> Program) list"

text \<open>The module variables \<open>siteRoot\<close>, \<open>showRoot\<close> and \<open>siteInfo\<close> set by
  \<open>Init\<close>.\<close>

record globals =
  siteRoot :: string
  showRoot :: string
  siteInfo :: SiteInfo

section \<open>Branches\<close>

text \<open>
  The classes \<open>ShowBranch\<close>, \<open>CategoryBranch\<close>, \<open>GroupBranch\<close>,
  \<open>UnitBranch\<close> and \<open>PartBranch\<close> share one datatype. \<open>Subdirs\<close> and
  \<open>ProgramDir\<close> are \<open>None\<close> where the object holds \<open>undefined\<close>.
\<close>

datatype Branch =
  Branch (Parent: "Branch option") (Type: string) (Name: string) (Dir: string)
    (Subdirs: "DirSpec list option") (ChildRoot: string)
    (ProgramDir: "(string \<times> string) list option")

text \<open>
  \<open>getParent(b, type)\<close> walks the parents of \<open>b\<close>, not \<open>b\<close> itself; the
  argument here is \<open>b.Parent\<close>. The message of the final \<open>throw\<close> is built from a
  variable \<open>name\<close> that the function does not bind; only the throw is modelled.
\<close>

fun getParent_from :: "Branch option \<Rightarrow> string \<Rightarrow> error + Branch" where
  "getParent_from None ty = Inl (Error '' branch not found'')"
| "getParent_from (Some (Branch p t n d s c pd)) ty =
     (if t = ty then Inr (Branch p t n d s c pd) else getParent_from p ty)"

definition getParent :: "Branch \<Rightarrow> string \<Rightarrow> error + Branch" where
  "getParent b ty = getParent_from (Parent b) ty"

definition ValidCategories :: "globals \<Rightarrow> string list" where
  "ValidCategories g = string_sort (own_keys (site_categories (siteInfo g)))"

definition ShowBranch :: "globals \<Rightarrow> string \<Rightarrow> Branch" where
  "ShowBranch g name =
     (let dir = path_join (showRoot g) name;
          showInfo = site_show (siteInfo g)
      in Branch None ''show'' name dir (Some (info_Subdirs showInfo))
           (path_join dir (info_ChildRoot showInfo)) None)"

definition CategoryBranch :: "globals \<Rightarrow> Branch \<Rightarrow> string \<Rightarrow> error + Branch" where
  "CategoryBranch g parent name =
     (if name \<notin> set (ValidCategories g) then Inl (Error (''invalid category name: '' @ name))
      else
        let dir = path_join (ChildRoot parent) name;
            ctgInfo = site_category (siteInfo g)
        in Inr (Branch (Some parent) ''category'' name dir (Some (info_Subdirs ctgInfo))
                  (path_join dir (info_ChildRoot ctgInfo)) None))"

text \<open>
  The constructors below read \<open>siteInfo["categories"][ctg]\<close>. When the name is
  inherited, \<open>ctgInfo\<close> is truthy, \<open>ctgInfo["group"]\<close> (or \<open>"unit"\<close>,
  \<open>"part"\<close>) is \<open>undefined\<close> and the next property access throws.
\<close>

definition GroupBranch :: "globals \<Rightarrow> Branch \<Rightarrow> string \<Rightarrow> error + Branch" where
  "GroupBranch g parent name =
     (let dir = path_join (ChildRoot parent) name in
      case getParent_from (Some parent) ''category'' of
        Inl e \<Rightarrow> Inl e
      | Inr c \<Rightarrow>
          (case js_lookup (site_categories (siteInfo g)) (Name c) of
             Missing \<Rightarrow> Inl (Error (''unknown category: '' @ Name c))
           | Inherited \<Rightarrow> Inl TypeError
           | Own ctgInfo \<Rightarrow>
               let grpInfo = ctg_group ctgInfo
               in Inr (Branch (Some parent) ''group'' name dir (Some (info_Subdirs grpInfo))
                         (path_join dir (info_ChildRoot grpInfo)) None)))"

definition UnitBranch :: "globals \<Rightarrow> Branch \<Rightarrow> string \<Rightarrow> error + Branch" where
  "UnitBranch g parent name =
     (let dir = path_join (ChildRoot parent) name in
      case getParent_from (Some parent) ''category'' of
        Inl e \<Rightarrow> Inl e
      | Inr c \<Rightarrow>
          (case js_lookup (site_categories (siteInfo g)) (Name c) of
             Missing \<Rightarrow> Inl (Error (''unknown category: '' @ Name c))
           | Inherited \<Rightarrow> Inl TypeError
           | Own ctgInfo \<Rightarrow>
               let unitInfo = ctg_unit ctgInfo
               in Inr (Branch (Some parent) ''unit'' name dir (Some (info_Subdirs unitInfo))
                         (path_join dir (info_ChildRoot unitInfo)) None)))"

text \<open>
  \<open>PartBranch\<close>: when the part name is inherited, \<open>partInfo\<close> is truthy and the
  constructor returns with \<open>Subdirs\<close> and \<open>ProgramDir\<close> undefined.
\<close>

definition PartBranch :: "globals \<Rightarrow> Branch \<Rightarrow> string \<Rightarrow> error + Branch" where
  "PartBranch g parent name =
     (let dir = path_join (ChildRoot parent) name in
      case getParent_from (Some parent) ''category'' of
        Inl e \<Rightarrow> Inl e
      | Inr c \<Rightarrow>
          (case js_lookup (site_categories (siteInfo g)) (Name c) of
             Missing \<Rightarrow> Inl (Error (''unknown category: '' @ Name c))
           | Inherited \<Rightarrow> Inl TypeError
           | Own ctgInfo \<Rightarrow>
               (case js_lookup (ctg_part ctgInfo) name of
                  Missing \<Rightarrow>
                    Inl (Error (''unknown part for '' @ Name c @ '' category: '' @ name))
                | Inherited \<Rightarrow> Inr (Branch (Some parent) ''part'' name dir None dir None)
                | Own partInfo \<Rightarrow>
                    Inr (Branch (Some parent) ''part'' name dir (Some (part_Subdirs partInfo))
                           dir (Some (part_ProgramDir partInfo))))))"

subsection \<open>Creating directories\<close>

text \<open>
  \<open>makeDir(d, perm)\<close>: \<open>mkdirSync\<close>, \<open>chmodSync\<close> and, on Windows, a grant to
  everyone when the three standard digits are 777 or 775. A failure leaves what was done
  before it.
\<close>

definition icacls :: "host \<Rightarrow> string \<Rightarrow> string \<Rightarrow> fs \<Rightarrow> (error + unit) \<times> fs" where
  "icacls h d user fs =
     (let arg = map (\<lambda>c. if c = CHR ''/'' then CHR 0x5C else c) d in
      if icacls_ok h arg user
      then (case locate fs d of
              Inl e \<Rightarrow> (Inr (), fs)
            | Inr kn \<Rightarrow> (Inr (), update_node (fst kn) (add_grant user) fs))
      else (Inl (ChildError ''Command failed: icacls''), fs))"

definition makeDir :: "host \<Rightarrow> string \<Rightarrow> string \<Rightarrow> fs \<Rightarrow> (error + unit) \<times> fs" where
  "makeDir h d perm fs =
     (case mkdirSync fs d of
        Inl e \<Rightarrow> (Inl e, fs)
      | Inr fs1 \<Rightarrow>
          (case chmodSync fs1 d perm of
             Inl e \<Rightarrow> (Inl e, fs1)
           | Inr fs2 \<Rightarrow>
               if platform h = ''win32'' then
                 (let specialBit = substring perm 0 1;
                      defaultBits = substring perm 1 4
                  in if defaultBits = ''777'' \<or> defaultBits = ''775'' then
                       icacls h d
                         (if specialBit = ''2'' then ''everyone:(CI)(OI)(F)'' else ''everyone:(F)'')
                         fs2
                     else (Inr (), fs2))
               else (Inr (), fs2)))"

text \<open>
  The loop \<open>for (let d of b.Subdirs) { makeDir(path.join(b.Dir, d.Name), d.Perm) }\<close>
  that \<open>CreateShow\<close>, \<open>CreateGroup\<close>, \<open>CreateUnit\<close> and \<open>CreatePart\<close>
  each run on the branch they have built.
\<close>

fun makeDirs :: "host \<Rightarrow> string \<Rightarrow> DirSpec list \<Rightarrow> fs \<Rightarrow> (error + unit) \<times> fs" where
  "makeDirs h dir [] fs = (Inr (), fs)"
| "makeDirs h dir (d # ds) fs =
     (case makeDir h (path_join dir (dir_Name d)) (dir_Perm d) fs of
        (Inl e, fs') \<Rightarrow> (Inl e, fs')
      | (Inr u, fs') \<Rightarrow> makeDirs h dir ds fs')"

definition createSubdirs :: "host \<Rightarrow> Branch \<Rightarrow> fs \<Rightarrow> (error + unit) \<times> fs" where
  "createSubdirs h b fs =
     (case Subdirs b of
        None \<Rightarrow> (Inl TypeError, fs)
      | Some ds \<Rightarrow> makeDirs h (Dir b) ds fs)"

definition CreateShow :: "host \<Rightarrow> globals \<Rightarrow> string \<Rightarrow> fs \<Rightarrow> (error + unit) \<times> fs" where
  "CreateShow h g name fs = createSubdirs h (ShowBranch g name) fs"

definition CreateGroup :: "host \<Rightarrow> globals \<Rightarrow> Branch \<Rightarrow> string \<Rightarrow> fs \<Rightarrow> (error + unit) \<times> fs" where
  "CreateGroup h g this name fs =
     (case GroupBranch g this name of
        Inl e \<Rightarrow> (Inl e, fs)
      | Inr grp \<Rightarrow> createSubdirs h grp fs)"

definition CreateUnit :: "host \<Rightarrow> globals \<Rightarrow> Branch \<Rightarrow> string \<Rightarrow> fs \<Rightarrow> (error + unit) \<times> fs" where
  "CreateUnit h g this name fs =
     (case UnitBranch g this name of
        Inl e \<Rightarrow> (Inl e, fs)
      | Inr unit \<Rightarrow> createSubdirs h unit fs)"

definition CreatePart :: "host \<Rightarrow> globals \<Rightarrow> Branch \<Rightarrow> string \<Rightarrow> fs \<Rightarrow> (error + unit) \<times> fs" where
  "CreatePart h g this name fs =
     (case PartBranch g this name of
        Inl e \<Rightarrow> (Inl e, fs)
      | Inr part \<Rightarrow> createSubdirs h part fs)"

subsection \<open>Getting a branch\<close>

text \<open>These functions read the file system and return no new one.\<close>

definition Show :: "globals \<Rightarrow> fs \<Rightarrow> string \<Rightarrow> error + Branch" where
  "Show g fs name =
     (let show = ShowBranch g name in
      if \<not> existsSync fs (Dir show) then Inl (Error (''show not exists: '' @ name))
      else Inr show)"

definition Category :: "globals \<Rightarrow> Branch \<Rightarrow> string \<Rightarrow> error + Branch" where
  "Category g this name = CategoryBranch g this name"

definition Group :: "globals \<Rightarrow> fs \<Rightarrow> Branch \<Rightarrow> string \<Rightarrow> error + Branch" where
  "Group g fs this name =
     (case GroupBranch g this name of
        Inl e \<Rightarrow> Inl e
      | Inr grp \<Rightarrow>
          if \<not> existsSync fs (Dir grp) then Inl (Error (''no group: '' @ name))
          else Inr grp)"

definition Unit :: "globals \<Rightarrow> fs \<Rightarrow> Branch \<Rightarrow> string \<Rightarrow> error + Branch" where
  "Unit g fs this name =
     (case UnitBranch g this name of
        Inl e \<Rightarrow> Inl e
      | Inr unit \<Rightarrow>
          if \<not> existsSync fs (Dir unit) then Inl (Error (''no unit: '' @ name))
          else Inr unit)"

definition Part :: "globals \<Rightarrow> Branch \<Rightarrow> string \<Rightarrow> error + Branch" where
  "Part g this name = PartBranch g this name"

section \<open>Tasks and scenes\<close>

text \<open>
  \<open>TaskBranch\<close>. Its fields \<open>Subdirs\<close> and \<open>ChildRoot\<close> are declared and
  never assigned, so they are left out. \<open>task_Program\<close> is \<open>None\<close> when the
  value stored is not a program of the schema (an inherited property of
  \<open>siteInfo.programs\<close>).
\<close>

record TaskBranch =
  task_Parent :: Branch
  task_Name :: string
  task_Program :: "Program option"
  task_Dir :: string
  Versions :: "string list"

definition new_TaskBranch :: "Branch \<Rightarrow> string \<Rightarrow> Program option \<Rightarrow> string \<Rightarrow> TaskBranch" where
  "new_TaskBranch parent name pg dir =
     \<lparr>task_Parent = parent, task_Name = name, task_Program = pg, task_Dir = dir, Versions = []\<rparr>"

text \<open>\<open>PartBranch.ProgramAt(prog)\<close>; \<open>Inr None\<close> is an inherited value, which is not
  a string.\<close>

definition ProgramAt :: "Branch \<Rightarrow> string \<Rightarrow> error + string option" where
  "ProgramAt this prog =
     (case ProgramDir this of
        None \<Rightarrow> Inl TypeError
      | Some pd \<Rightarrow>
          (case js_lookup pd prog of
             Missing \<Rightarrow>
               Inl (Error (''program '' @ [CHR 0x27] @ prog @ [CHR 0x27] @ '' not defined in '' @ Name this))
           | Inherited \<Rightarrow> Inr None
           | Own d \<Rightarrow> Inr (Some d)))"

text \<open>
  One round of the loop over the files of \<open>PartBranch.Tasks\<close>; its last two
  statements are \<open>add_version\<close>. \<open>taskMap\<close> is the object \<open>{}\<close> in
  insertion order. When the task name is a name of \<open>Object.prototype\<close> and not yet a
  key, \<open>taskMap[task]\<close> is truthy, no task is stored and
  \<open>taskMap[task].Versions.push\<close> throws.
\<close>

definition add_version ::
  "Branch \<Rightarrow> Program \<Rightarrow> string \<Rightarrow> (string \<times> TaskBranch) list \<Rightarrow> string \<Rightarrow> string
     \<Rightarrow> error + (string \<times> TaskBranch) list" where
  "add_version this pg dir taskMap task version =
     (case js_lookup taskMap task of
        Inherited \<Rightarrow> Inl TypeError
      | Missing \<Rightarrow>
          Inr (taskMap @
               [(task, (new_TaskBranch this task (Some pg) dir)\<lparr>Versions := [version]\<rparr>)])
      | Own t \<Rightarrow>
          Inr (map (\<lambda>e. if fst e = task
                         then (fst e, (snd e)\<lparr>Versions := Versions (snd e) @ [version]\<rparr>)
                         else e) taskMap))"

definition scan_file ::
  "fs \<Rightarrow> Branch \<Rightarrow> Program \<Rightarrow> string \<Rightarrow> string \<Rightarrow> (string \<times> TaskBranch) list \<Rightarrow> string
     \<Rightarrow> error + (string \<times> TaskBranch) list" where
  "scan_file fs this pg dir pre taskMap f0 =
     (case lstatSync fs (path_join dir f0) of
        Inl e \<Rightarrow> Inl e
      | Inr n \<Rightarrow>
          if n \<noteq> File then Inr taskMap
          else if \<not> endsWith f0 (prog_Ext pg) then Inr taskMap
          else
            let f1 = substring f0 0 (length f0 - length (prog_Ext pg)) in
            if \<not> startsWith f1 pre then Inr taskMap
            else
              let f2 = substring f1 (length pre) (length f1);
                  ws = split_on CHR ''_'' f2
              in if length ws = 1 then Inr taskMap
                 else
                   let version = last ws;
                       task = join_str ''_'' (butlast ws)
                   in if version_rejected version then Inr taskMap
                      else add_version this pg dir taskMap task version)"

fun scan_files ::
  "fs \<Rightarrow> Branch \<Rightarrow> Program \<Rightarrow> string \<Rightarrow> string \<Rightarrow> (string \<times> TaskBranch) list \<Rightarrow> string list
     \<Rightarrow> error + (string \<times> TaskBranch) list" where
  "scan_files fs this pg dir pre taskMap [] = Inr taskMap"
| "scan_files fs this pg dir pre taskMap (f # files) =
     (case scan_file fs this pg dir pre taskMap f of
        Inl e \<Rightarrow> Inl e
      | Inr taskMap' \<Rightarrow> scan_files fs this pg dir pre taskMap' files)"

text \<open>
  When \<open>siteInfo.programs[prog]\<close> is inherited, \<open>pg.Ext\<close> is \<open>undefined\<close>:
  \<open>f.endsWith(undefined)\<close> tests the suffix \<open>"undefined"\<close> and
  \<open>pg.Ext.length\<close> throws for the first regular file that has it.
\<close>

fun scan_files_inherited :: "fs \<Rightarrow> string \<Rightarrow> string list \<Rightarrow> error + unit" where
  "scan_files_inherited fs dir [] = Inr ()"
| "scan_files_inherited fs dir (f # files) =
     (case lstatSync fs (path_join dir f) of
        Inl e \<Rightarrow> Inl e
      | Inr n \<Rightarrow>
          if n \<noteq> File then scan_files_inherited fs dir files
          else if \<not> endsWith f ''undefined'' then scan_files_inherited fs dir files
          else Inl TypeError)"

text \<open>
  \<open>PartBranch.Tasks(prog)\<close>. A key of \<open>taskMap\<close> that is an array index would be
  visited first by \<open>for ... in\<close>; the order of \<open>tasks\<close> before the final sort does
  not reach the result, since the names are distinct.
\<close>

definition Tasks :: "globals \<Rightarrow> fs \<Rightarrow> Branch \<Rightarrow> string \<Rightarrow> error + TaskBranch list" where
  "Tasks g fs this prog =
     (case ProgramAt this prog of
        Inl e \<Rightarrow> Inl e
      | Inr None \<Rightarrow> Inl TypeError
      | Inr (Some progDir) \<Rightarrow>
          let dir = path_join (Dir this) progDir in
          if \<not> existsSync fs dir then Inr []
          else
            (case js_lookup (site_programs (siteInfo g)) prog of
               Missing \<Rightarrow> Inl (Error (''program not defined: '' @ prog))
             | Inherited \<Rightarrow>
                 (case getParent this ''show'' of Inl e \<Rightarrow> Inl e | Inr show \<Rightarrow>
                 (case getParent this ''group'' of Inl e \<Rightarrow> Inl e | Inr grp \<Rightarrow>
                 (case getParent this ''unit'' of Inl e \<Rightarrow> Inl e | Inr unit \<Rightarrow>
                 (case readdirSync fs dir of Inl e \<Rightarrow> Inl e | Inr files \<Rightarrow>
                 (case scan_files_inherited fs dir files of Inl e \<Rightarrow> Inl e | Inr u \<Rightarrow> Inr [])))))
             | Own pg \<Rightarrow>
                 (case getParent this ''show'' of Inl e \<Rightarrow> Inl e | Inr show \<Rightarrow>
                 (case getParent this ''group'' of Inl e \<Rightarrow> Inl e | Inr grp \<Rightarrow>
                 (case getParent this ''unit'' of Inl e \<Rightarrow> Inl e | Inr unit \<Rightarrow>
                 (case readdirSync fs dir of Inl e \<Rightarrow> Inl e | Inr files \<Rightarrow>
                 (case scan_files fs this pg dir
                         (Name show @ ''_'' @ Name grp @ ''_'' @ Name unit @ ''_'' @ Name this @ ''_'')
                         [] files of
                    Inl e \<Rightarrow> Inl e
                  | Inr taskMap \<Rightarrow>
                      Inr (sort_by (\<lambda>a b. compare (task_Name a) (task_Name b))
                             (map (\<lambda>e. (snd e)\<lparr>Versions := string_sort (Versions (snd e))\<rparr>)
                                taskMap)))))))))"

text \<open>\<open>PartBranch.Task(prog, task)\<close>.\<close>

definition Task :: "globals \<Rightarrow> fs \<Rightarrow> Branch \<Rightarrow> string \<Rightarrow> string \<Rightarrow> error + TaskBranch" where
  "Task g fs this prog task =
     (case Tasks g fs this prog of
        Inl e \<Rightarrow> Inl e
      | Inr progTasks \<Rightarrow>
          (case find (\<lambda>t. task_Name t = task) progTasks of
             Some t \<Rightarrow> Inr t
           | None \<Rightarrow> Inl (Error (''no task for '' @ prog @ '' program: '' @ task))))"

text \<open>
  \<open>TaskBranch.Scene(ver)\<close>. The version is \<open>None\<close> when the argument is
  \<open>undefined\<close>; \<open>!ver\<close> holds for \<open>undefined\<close> and for the empty string, and
  then \<open>ver\<close> becomes \<open>Versions[Versions.length-1]\<close>, which is \<open>undefined\<close>
  for an empty array. String concatenation writes \<open>undefined\<close> as the text
  \<open>undefined\<close>.
\<close>

definition default_version :: "TaskBranch \<Rightarrow> string option \<Rightarrow> string option" where
  "default_version t ver =
     (if ver = None \<or> ver = Some []
      then (if Versions t = [] then None else Some (last (Versions t)))
      else ver)"

definition getParent_task :: "TaskBranch \<Rightarrow> string \<Rightarrow> error + Branch" where
  "getParent_task t ty = getParent_from (Some (task_Parent t)) ty"

definition Scene :: "TaskBranch \<Rightarrow> string option \<Rightarrow> error + string" where
  "Scene t ver0 =
     (let ver = default_version t ver0 in
      (case getParent_task t ''show'' of Inl e \<Rightarrow> Inl e | Inr show \<Rightarrow>
      (case getParent_task t ''group'' of Inl e \<Rightarrow> Inl e | Inr grp \<Rightarrow>
      (case getParent_task t ''unit'' of Inl e \<Rightarrow> Inl e | Inr unit \<Rightarrow>
      (case getParent_task t ''part'' of Inl e \<Rightarrow> Inl e | Inr part \<Rightarrow>
         Inr (path_join (task_Dir t)
                (Name show @ ''_'' @ Name grp @ ''_'' @ Name unit @ ''_'' @ Name part @ ''_''
                 @ task_Name t @ ''_'' @ to_text ver
                 @ to_text (map_option prog_Ext (task_Program t)))))))))"

text \<open>
  The command of the program for the platform: \<open>cmds[process.platform]\<close>, refused when
  falsy, then \<open>path.join(siteRoot, cmd)\<close>.
\<close>

definition command_for ::
  "host \<Rightarrow> globals \<Rightarrow> (string \<times> string) list option \<Rightarrow> error + string" where
  "command_for h g cmds =
     (case cmds of
        None \<Rightarrow> Inl TypeError
      | Some cs \<Rightarrow>
          (case js_lookup cs (platform h) of
             Missing \<Rightarrow> Inl (Error (''not supported os: '' @ platform h))
           | Inherited \<Rightarrow> Inl TypeError
           | Own c \<Rightarrow>
               if c = [] then Inl (Error (''not supported os: '' @ platform h))
               else Inr (path_join (siteRoot g) c)))"

text \<open>
  \<open>TaskBranch.Create(ver)\<close> ends with \<open>proc.execFileSync(create, [scene])\<close>; the
  result is that call, or what was thrown, and the file system the command leaves.
\<close>

definition Create ::
  "host \<Rightarrow> globals \<Rightarrow> TaskBranch \<Rightarrow> string option \<Rightarrow> fs \<Rightarrow> (error + launch) \<times> fs" where
  "Create h g t ver fs =
     (case Scene t ver of
        Inl e \<Rightarrow> (Inl e, fs)
      | Inr scene \<Rightarrow>
          if existsSync fs scene then (Inl (Error (''scene already exists: '' @ scene)), fs)
          else
            (case command_for h g (map_option prog_CreateCmd (task_Program t)) of
               Inl e \<Rightarrow> (Inl e, fs)
             | Inr create \<Rightarrow>
                 (case execFileSync h \<lparr>l_file = create, l_args = [scene], l_env = None, l_flags = []\<rparr> fs of
                    (Inl e, fs') \<Rightarrow> (Inl e, fs')
                  | (Inr u, fs') \<Rightarrow>
                      (Inr \<lparr>l_file = create, l_args = [scene], l_env = None, l_flags = []\<rparr>, fs'))))"

text \<open>
  \<open>TaskBranch.Open(ver, handleError)\<close> ends with
  \<open>spawn(open, [scene], { detach: true }, handleError)\<close>; the result is that call with the
  state of the handlers after the last event of the child, or what was thrown.
\<close>

definition Open ::
  "host \<Rightarrow> globals \<Rightarrow> TaskBranch \<Rightarrow> string option \<Rightarrow> error + launch \<times> spawn_state" where
  "Open h g t ver =
     (case Scene t ver of
        Inl e \<Rightarrow> Inl e
      | Inr scene \<Rightarrow>
          (case command_for h g (map_option prog_OpenCmd (task_Program t)) of
             Inl e \<Rightarrow> Inl e
           | Inr opn \<Rightarrow>
               (case spawn h \<lparr>l_file = opn, l_args = [scene], l_env = None, l_flags = [''detach'']\<rparr> of
                  (Some e, st) \<Rightarrow> Inl e
                | (None, st) \<Rightarrow>
                    Inr (\<lparr>l_file = opn, l_args = [scene], l_env = None, l_flags = [''detach'']\<rparr>, st))))"

text \<open>\<open>PartBranch.OpenTask(prog, task, ver, handleError)\<close>.\<close>

definition OpenTask ::
  "host \<Rightarrow> globals \<Rightarrow> fs \<Rightarrow> Branch \<Rightarrow> string \<Rightarrow> string \<Rightarrow> string option
     \<Rightarrow> error + launch \<times> spawn_state" where
  "OpenTask h g fs this prog task ver =
     (case Task g fs this prog task of
        Inl e \<Rightarrow> Inl e
      | Inr t \<Rightarrow> Open h g t ver)"

text \<open>\<open>PartBranch.CreateTask(prog, task, ver)\<close>.\<close>

fun makeProgDir :: "host \<Rightarrow> string \<Rightarrow> string \<Rightarrow> DirSpec list \<Rightarrow> fs \<Rightarrow> (error + unit) \<times> fs" where
  "makeProgDir h dir progDir [] fs = (Inr (), fs)"
| "makeProgDir h dir progDir (d # ds) fs =
     (if dir_Name d = progDir then
        (case makeDir h dir (dir_Perm d) fs of
           (Inl e, fs') \<Rightarrow> (Inl e, fs')
         | (Inr u, fs') \<Rightarrow> makeProgDir h dir progDir ds fs')
      else makeProgDir h dir progDir ds fs)"

definition CreateTask ::
  "host \<Rightarrow> globals \<Rightarrow> Branch \<Rightarrow> string \<Rightarrow> string \<Rightarrow> string option \<Rightarrow> fs
     \<Rightarrow> (error + launch) \<times> fs" where
  "CreateTask h g this prog task ver fs =
     (case js_lookup (site_programs (siteInfo g)) prog of
        Missing \<Rightarrow> (Inl (Error (''program not defined: '' @ prog)), fs)
      | pg \<Rightarrow>
          (case ProgramAt this prog of
             Inl e \<Rightarrow> (Inl e, fs)
           | Inr None \<Rightarrow> (Inl TypeError, fs)
           | Inr (Some progDir) \<Rightarrow>
               let dir = path_join (Dir this) progDir;
                   made = (if \<not> existsSync fs dir
                           then (case Subdirs this of
                                   None \<Rightarrow> (Inr (), fs)
                                 | Some ds \<Rightarrow> makeProgDir h dir progDir ds fs)
                           else (Inr (), fs))
               in (case made of
                     (Inl e, fs') \<Rightarrow> (Inl e, fs')
                   | (Inr u, fs') \<Rightarrow>
                       Create h g
                         (new_TaskBranch this task (case pg of Own p \<Rightarrow> Some p | _ \<Rightarrow> None) dir)
                         ver fs')))"

section \<open>Validation of the schema document\<close>

text \<open>
  \<open>Init\<close> parses \<open>site.json\<close> and passes the value to \<open>validateSiteInfo\<close>.
  The value is any JSON value; \<open>JUndefined\<close> is what reading an absent property gives.
\<close>

datatype json =
    JUndefined
  | JNull
  | JBool bool
  | JNum int
  | JStr string
  | JArr "json list"
  | JObj "(string \<times> json) list"

definition indices :: "nat \<Rightarrow> string list" where
  "indices n = map string_of_nat [0..<n]"

text \<open>
  \<open>a in obj\<close>: own and inherited properties of an object or an array, a
  \<open>TypeError\<close> for any other value. The methods of \<open>Array.prototype\<close>, none of
  which the validators ask for, are left out.
\<close>

definition js_in :: "string \<Rightarrow> json \<Rightarrow> error + bool" where
  "js_in a obj =
     (case obj of
        JObj kvs \<Rightarrow> Inr (a \<in> fst ` set kvs \<or> a \<in> set Object_prototype_keys)
      | JArr xs \<Rightarrow> Inr (a \<in> set (indices (length xs)) \<or> a = ''length'' \<or> a \<in> set Object_prototype_keys)
      | _ \<Rightarrow> Inl TypeError)"

text \<open>The keys a \<open>for ... in\<close> loop visits, each with \<open>obj[key]\<close>.\<close>

definition for_in :: "json \<Rightarrow> (string \<times> json) list" where
  "for_in obj =
     (case obj of
        JObj kvs \<Rightarrow> kvs
      | JArr xs \<Rightarrow> zip (indices (length xs)) xs
      | JStr s \<Rightarrow> zip (indices (length s)) (map (\<lambda>c. JStr [c]) s)
      | _ \<Rightarrow> [])"

text \<open>\<open>obj.a\<close> for an own property.\<close>

definition js_get :: "json \<Rightarrow> string \<Rightarrow> json" where
  "js_get obj a = (case map_of (for_in obj) a of None \<Rightarrow> JUndefined | Some v \<Rightarrow> v)"

text \<open>The values a \<open>for ... of\<close> loop visits.\<close>

definition for_of :: "json \<Rightarrow> error + json list" where
  "for_of v =
     (case v of
        JArr xs \<Rightarrow> Inr xs
      | JStr s \<Rightarrow> Inr (map (\<lambda>c. JStr [c]) s)
      | _ \<Rightarrow> Inl TypeError)"

fun each :: "('a \<Rightarrow> error + unit) \<Rightarrow> 'a list \<Rightarrow> error + unit" where
  "each f [] = Inr ()"
| "each f (x # xs) = (case f x of Inl e \<Rightarrow> Inl e | Inr u \<Rightarrow> each f xs)"

definition mustHaveAttrs :: "string \<Rightarrow> json \<Rightarrow> string list \<Rightarrow> error + unit" where
  "mustHaveAttrs label obj attrs =
     each (\<lambda>a. case js_in a obj of
                 Inl e \<Rightarrow> Inl e
               | Inr has \<Rightarrow>
                   if \<not> has then Inl (Error (label @ '': does not have attribute: '' @ a))
                   else Inr ())
       attrs"

definition validateDir :: "string \<Rightarrow> json \<Rightarrow> error + unit" where
  "validateDir label d =
     (case mustHaveAttrs label d [''Name'', ''Perm''] of
        Inl e \<Rightarrow> Inl e
      | Inr u \<Rightarrow>
          (case js_get d ''Perm'' of
             JStr perm \<Rightarrow>
               if length perm \<noteq> 4
               then Inl (Error (label @ '': a directory permission is a string of 4 characters''))
               else Inr ()
           | _ \<Rightarrow> Inl (Error (label @ '': a directory permission is a string of 4 characters''))))"

definition validateBranchInfo :: "string \<Rightarrow> json \<Rightarrow> error + unit" where
  "validateBranchInfo label info =
     (case mustHaveAttrs label info [''Label'', ''Subdirs'', ''ChildRoot''] of
        Inl e \<Rightarrow> Inl e
      | Inr u \<Rightarrow>
          (case for_of (js_get info ''Subdirs'') of
             Inl e \<Rightarrow> Inl e
           | Inr ds \<Rightarrow> each (validateDir label) ds))"

definition validatePartInfo :: "string \<Rightarrow> json \<Rightarrow> error + unit" where
  "validatePartInfo label info = mustHaveAttrs label info [''Label'', ''Subdirs'', ''ProgramDir'']"

definition validateProgram :: "string \<Rightarrow> json \<Rightarrow> error + unit" where
  "validateProgram label p = mustHaveAttrs label p [''Name'', ''Ext'', ''CreateCmd'', ''OpenCmd'']"

definition validateCategory :: "string \<times> json \<Rightarrow> error + unit" where
  "validateCategory e =
     (let label = ''siteInfo[categories]['' @ fst e @ '']''; ctgInfo = snd e in
      (case mustHaveAttrs label ctgInfo [''group'', ''unit'', ''part''] of Inl e \<Rightarrow> Inl e | Inr u \<Rightarrow>
      (case validateBranchInfo label (js_get ctgInfo ''group'') of Inl e \<Rightarrow> Inl e | Inr u \<Rightarrow>
      (case validateBranchInfo label (js_get ctgInfo ''unit'') of Inl e \<Rightarrow> Inl e | Inr u \<Rightarrow>
         each (\<lambda>p. validatePartInfo (label @ ''[part]['' @ fst p @ '']'') (snd p))
           (for_in (js_get ctgInfo ''part''))))))"

definition validateSiteInfo :: "json \<Rightarrow> error + unit" where
  "validateSiteInfo info =
     (case mustHaveAttrs ''siteInfo'' info [''show'', ''category'', ''categories'', ''programs''] of
        Inl e \<Rightarrow> Inl e | Inr u \<Rightarrow>
     (case validateBranchInfo ''siteInfo[show]'' (js_get info ''show'') of Inl e \<Rightarrow> Inl e | Inr u \<Rightarrow>
     (case validateBranchInfo ''siteInfo[category]'' (js_get info ''category'') of Inl e \<Rightarrow> Inl e | Inr u \<Rightarrow>
     (case each validateCategory (for_in (js_get info ''categories'')) of Inl e \<Rightarrow> Inl e | Inr u \<Rightarrow>
        each (\<lambda>p. validateProgram (''siteInfo[programs]['' @ fst p @ '']'') (snd p))
          (for_in (js_get info ''programs''))))))"

section \<open>The hard-coded implementation\<close>

text \<open>
  The second source file holds the older implementation: a class \<open>Category\<close> with two
  instances, paths built with \<open>+\<close>, and programs as objects with two closures. Its
  module variables are \<open>siteRoot\<close> and \<open>projectRoot\<close>. The arguments of its
  functions are strings.
\<close>

record legacy =
  legacy_siteRoot :: string
  projectRoot :: string

definition ProjectDir :: "legacy \<Rightarrow> string \<Rightarrow> string" where
  "ProjectDir lg prj = projectRoot lg @ ''/'' @ prj"

text \<open>\<open>cloneEnv()\<close> and the loop \<open>for (let e in sceneEnv) { env[e] = sceneEnv[e] }\<close>.\<close>

definition cloneEnv :: "host \<Rightarrow> (string \<times> string) list" where
  "cloneEnv h = foldl (\<lambda>env e. js_set (fst e) (snd e) env) [] (process_env h)"

definition overlay :: "(string \<times> string) list \<Rightarrow> (string \<times> string) list \<Rightarrow> (string \<times> string) list" where
  "overlay env sceneEnv = foldl (\<lambda>env e. js_set (fst e) (snd e) env) env sceneEnv"

text \<open>
  The class \<open>Program\<close> of this file. The closures \<open>CreateScene\<close> and
  \<open>OpenScene\<close> of \<open>newMayaAt\<close>, \<open>newHoudiniAt\<close> and \<open>newNukeAt\<close> differ in
  the name of the runner only; \<open>mySpawn\<close> is \<open>spawn\<close> word for word.
\<close>

record LegacyProgram =
  lp_Name :: string
  lp_Dir :: string
  lp_Ext :: string
  lp_CreateScene ::
    "legacy \<Rightarrow> host \<Rightarrow> string \<Rightarrow> (string \<times> string) list \<Rightarrow> fs \<Rightarrow> (error + launch) \<times> fs"
  lp_OpenScene ::
    "legacy \<Rightarrow> host \<Rightarrow> string \<Rightarrow> (string \<times> string) list \<Rightarrow> error + launch \<times> spawn_state"

definition runner_create ::
  "string \<Rightarrow> legacy \<Rightarrow> host \<Rightarrow> string \<Rightarrow> (string \<times> string) list \<Rightarrow> fs \<Rightarrow> (error + launch) \<times> fs" where
  "runner_create runner lg h scene env fs =
     (let cmd = (if platform h = ''win32''
                 then legacy_siteRoot lg @ ''/runner/'' @ runner @ ''_create.bat''
                 else legacy_siteRoot lg @ ''/runner/'' @ runner @ ''_create.sh'');
          l = \<lparr>l_file = cmd, l_args = [scene], l_env = Some env, l_flags = []\<rparr>
      in case execFileSync h l fs of
           (Inl e, fs') \<Rightarrow> (Inl e, fs')
         | (Inr u, fs') \<Rightarrow> (Inr l, fs'))"

definition runner_open ::
  "string \<Rightarrow> legacy \<Rightarrow> host \<Rightarrow> string \<Rightarrow> (string \<times> string) list \<Rightarrow> error + launch \<times> spawn_state" where
  "runner_open runner lg h scene env =
     (let cmd = (if platform h = ''win32''
                 then legacy_siteRoot lg @ ''/runner/'' @ runner @ ''_open.bat''
                 else legacy_siteRoot lg @ ''/runner/'' @ runner @ ''_open.sh'');
          l = \<lparr>l_file = cmd, l_args = [scene], l_env = Some env, l_flags = [''detached'']\<rparr>
      in case spawn h l of
           (Some e, st) \<Rightarrow> Inl e
         | (None, st) \<Rightarrow> Inr (l, st))"

definition newMayaAt :: "string \<Rightarrow> LegacyProgram" where
  "newMayaAt dir =
     \<lparr>lp_Name = ''maya'', lp_Dir = dir, lp_Ext = ''.mb'',
      lp_CreateScene = runner_create ''maya'', lp_OpenScene = runner_open ''maya''\<rparr>"

definition newHoudiniAt :: "string \<Rightarrow> LegacyProgram" where
  "newHoudiniAt dir =
     \<lparr>lp_Name = ''houdini'', lp_Dir = dir, lp_Ext = ''.hip'',
      lp_CreateScene = runner_create ''houdini'', lp_OpenScene = runner_open ''houdini''\<rparr>"

definition newNukeAt :: "string \<Rightarrow> LegacyProgram" where
  "newNukeAt dir =
     \<lparr>lp_Name = ''nuke'', lp_Dir = dir, lp_Ext = ''.nk'',
      lp_CreateScene = runner_create ''nuke'', lp_OpenScene = runner_open ''nuke''\<rparr>"

definition SceneName ::
  "LegacyProgram \<Rightarrow> string \<Rightarrow> string \<Rightarrow> string \<Rightarrow> string \<Rightarrow> string \<Rightarrow> string \<Rightarrow> string" where
  "SceneName p prj grp unit part task ver =
     lp_Dir p @ ''/'' @ prj @ ''_'' @ grp @ ''_'' @ unit @ ''_'' @ part @ ''_'' @ task @ ''_'' @ ver
     @ lp_Ext p"

text \<open>
  The class \<open>Category\<close>, with the fields its methods below read. The three root
  functions are closures over \<open>ProjectDir\<close>.
\<close>

record Category =
  cat_Name :: string
  cat_Label :: string
  groupRoot :: "legacy \<Rightarrow> string \<Rightarrow> string"
  unitRoot :: "legacy \<Rightarrow> string \<Rightarrow> string \<Rightarrow> string"
  partRoot :: "legacy \<Rightarrow> string \<Rightarrow> string \<Rightarrow> string \<Rightarrow> string"
  cat_Parts :: "string list"
  cat_programs :: "(string \<times> (string \<times> (string \<Rightarrow> LegacyProgram)) list) list"

definition GroupDir :: "legacy \<Rightarrow> Category \<Rightarrow> string \<Rightarrow> string \<Rightarrow> string" where
  "GroupDir lg this prj grp = groupRoot this lg prj @ ''/'' @ grp"

definition UnitDir :: "legacy \<Rightarrow> Category \<Rightarrow> string \<Rightarrow> string \<Rightarrow> string \<Rightarrow> string" where
  "UnitDir lg this prj grp unit = unitRoot this lg prj grp @ ''/'' @ unit"

definition PartDir :: "legacy \<Rightarrow> Category \<Rightarrow> string \<Rightarrow> string \<Rightarrow> string \<Rightarrow> string \<Rightarrow> string" where
  "PartDir lg this prj grp unit part = partRoot this lg prj grp unit @ ''/'' @ part"

text \<open>\<open>childDirs(d)\<close>.\<close>

fun keep_dirs :: "fs \<Rightarrow> string \<Rightarrow> string list \<Rightarrow> error + string list" where
  "keep_dirs fs d [] = Inr []"
| "keep_dirs fs d (f # files) =
     (case lstatSync fs (d @ ''/'' @ f) of
        Inl e \<Rightarrow> Inl e
      | Inr n \<Rightarrow>
          (case keep_dirs fs d files of
             Inl e \<Rightarrow> Inl e
           | Inr cds \<Rightarrow> Inr (if n \<noteq> File then f # cds else cds)))"

definition childDirs :: "fs \<Rightarrow> string \<Rightarrow> error + string list" where
  "childDirs fs d =
     (if \<not> existsSync fs d then Inl (Error (d @ '' directory does not exist''))
      else case readdirSync fs d of
             Inl e \<Rightarrow> Inl e
           | Inr files \<Rightarrow> keep_dirs fs d files)"

definition PartsOf :: "legacy \<Rightarrow> fs \<Rightarrow> Category \<Rightarrow> string \<Rightarrow> string \<Rightarrow> string \<Rightarrow> error + string list" where
  "PartsOf lg fs this prj grp unit = childDirs fs (partRoot this lg prj grp unit)"

text \<open>\<open>Category.SceneEnviron\<close>: the nine variables, in the order of the object literal.\<close>

definition SceneEnviron ::
  "legacy \<Rightarrow> Category \<Rightarrow> string \<Rightarrow> string \<Rightarrow> string \<Rightarrow> string \<Rightarrow> string \<Rightarrow> (string \<times> string) list" where
  "SceneEnviron lg this prj grp unit part task =
     [(''PRJ'', prj), (''GROUP'', grp), (''SHOT'', unit), (''PART'', part), (''TASK'', task),
      (''PRJD'', ProjectDir lg prj), (''GROUPD'', GroupDir lg this prj grp),
      (''SHOTD'', UnitDir lg this prj grp unit), (''PARTD'', PartDir lg this prj grp unit part)]"

text \<open>
  \<open>Category.ProgramsOf\<close>: the programs of the part, each built at the directory of the
  part. An inherited part name gives a function, which a \<open>for ... in\<close> loop finds empty.
\<close>

definition ProgramsOf ::
  "legacy \<Rightarrow> Category \<Rightarrow> string \<Rightarrow> string \<Rightarrow> string \<Rightarrow> string \<Rightarrow> error + (string \<times> LegacyProgram) list" where
  "ProgramsOf lg this prj grp unit part =
     (case js_lookup (cat_programs this) part of
        Missing \<Rightarrow> Inl (Error (''part not defined for the site: '' @ part))
      | Inherited \<Rightarrow> Inr []
      | Own pgs \<Rightarrow>
          Inr (foldl (\<lambda>progs e. js_set (fst e) (snd e (PartDir lg this prj grp unit part)) progs) [] pgs))"

text \<open>\<open>Category.CreateTask\<close> and \<open>Category.OpenTask\<close>.\<close>

definition Category_CreateTask ::
  "legacy \<Rightarrow> host \<Rightarrow> Category \<Rightarrow> string \<Rightarrow> string \<Rightarrow> string \<Rightarrow> string \<Rightarrow> string \<Rightarrow> string \<Rightarrow> string
     \<Rightarrow> fs \<Rightarrow> (error + launch) \<times> fs" where
  "Category_CreateTask lg h this prj grp unit part task ver prog fs =
     (case PartsOf lg fs this prj grp unit of
        Inl e \<Rightarrow> (Inl e, fs)
      | Inr parts \<Rightarrow>
          if part \<notin> set parts then (Inl (Error ''no such part''), fs)
          else if PartDir lg this prj grp unit part = [] then (Inl (Error ''no part directory''), fs)
          else if task = [] then (Inl (Error ''no task chosen''), fs)
          else if prog = [] then (Inl (Error ''no program chosen''), fs)
          else
            (case ProgramsOf lg this prj grp unit part of
               Inl e \<Rightarrow> (Inl e, fs)
             | Inr progs \<Rightarrow>
                 (case js_lookup progs prog of
                    Own p \<Rightarrow>
                      lp_CreateScene p lg h (SceneName p prj grp unit part task ver)
                        (overlay (cloneEnv h) (SceneEnviron lg this prj grp unit part task)) fs
                  | _ \<Rightarrow> (Inl TypeError, fs))))"

definition Category_OpenTask ::
  "legacy \<Rightarrow> host \<Rightarrow> Category \<Rightarrow> string \<Rightarrow> string \<Rightarrow> string \<Rightarrow> string \<Rightarrow> string \<Rightarrow> string \<Rightarrow> string
     \<Rightarrow> error + launch \<times> spawn_state" where
  "Category_OpenTask lg h this prj grp unit part task prog ver =
     (case ProgramsOf lg this prj grp unit part of
        Inl e \<Rightarrow> Inl e
      | Inr progs \<Rightarrow>
          (case js_lookup progs prog of
             Missing \<Rightarrow> Inl (Error (''no program '' @ prog @ '' for the task '' @ task))
           | Inherited \<Rightarrow> Inl TypeError
           | Own p \<Rightarrow>
               lp_OpenScene p lg h (SceneName p prj grp unit part task ver)
                 (overlay (cloneEnv h) (SceneEnviron lg this prj grp unit part task))))"

text \<open>The instance \<open>Shot\<close>: its roots and its programs.\<close>

definition Shot :: Category where
  "Shot =
     \<lparr>cat_Name = ''shot'', cat_Label = ''shot'',
      groupRoot = (\<lambda>lg prj. ProjectDir lg prj @ ''/shot''),
      unitRoot = (\<lambda>lg prj grp. ProjectDir lg prj @ ''/shot/'' @ grp),
      partRoot = (\<lambda>lg prj grp unit. ProjectDir lg prj @ ''/shot/'' @ grp @ ''/'' @ unit @ ''/work''),
      cat_Parts = [''lit'', ''fx'', ''comp''],
      cat_programs =
        [(''lit'', [(''maya'', \<lambda>taskDir. newMayaAt taskDir)]),
         (''fx'', [(''houdini'', \<lambda>taskDir. newHoudiniAt taskDir),
                   (''nuke'', \<lambda>taskDir. newNukeAt (taskDir @ ''/precomp''))]),
         (''comp'', [(''nuke'', \<lambda>taskDir. newNukeAt taskDir)])]\<rparr>"

section \<open>What a directory of scene files stands for\<close>

text \<open>
  The tests of one round of the loop of \<open>Tasks\<close> on a file name, without the file
  system and the task map: the task and the version the name stands for, if any.
\<close>

definition decode :: "Program \<Rightarrow> string \<Rightarrow> string \<Rightarrow> (string \<times> string) option" where
  "decode pg pre f0 =
     (if \<not> endsWith f0 (prog_Ext pg) then None
      else
        let f1 = substring f0 0 (length f0 - length (prog_Ext pg)) in
        if \<not> startsWith f1 pre then None
        else
          let f2 = substring f1 (length pre) (length f1);
              ws = split_on CHR ''_'' f2
          in if length ws = 1 then None
             else
               let version = last ws;
                   task = join_str ''_'' (butlast ws)
               in if version_rejected version then None else Some (task, version))"

text \<open>
  The pairs of task and version that the regular files among \<open>files\<close> stand for, in the
  order of \<open>files\<close>.
\<close>

definition discovered ::
  "fs \<Rightarrow> Program \<Rightarrow> string \<Rightarrow> string \<Rightarrow> string list \<Rightarrow> (string \<times> string) list" where
  "discovered fs pg dir pre files =
     concat (map (\<lambda>f. if lstatSync fs (path_join dir f) = Inr File
                       then (case decode pg pre f of None \<Rightarrow> [] | Some tv \<Rightarrow> [tv])
                       else []) files)"

text \<open>
  The tasks of a list of pairs, as the specification words them: one task for each task name,
  in ascending order of the names, each with its versions in ascending order.
\<close>

definition versions_of :: "string \<Rightarrow> (string \<times> string) list \<Rightarrow> string list" where
  "versions_of task pairs = map snd (filter (\<lambda>tv. fst tv = task) pairs)"

definition tasks_of_pairs ::
  "Branch \<Rightarrow> Program \<Rightarrow> string \<Rightarrow> (string \<times> string) list \<Rightarrow> TaskBranch list" where
  "tasks_of_pairs this pg dir pairs =
     map (\<lambda>task. \<lparr>task_Parent = this, task_Name = task, task_Program = Some pg, task_Dir = dir,
                   Versions = sort (versions_of task pairs)\<rparr>)
       (sort (remdups (map fst pairs)))"

text \<open>No pair has a task name that objects inherit.\<close>

definition no_inherited_name :: "(string \<times> string) list \<Rightarrow> bool" where
  "no_inherited_name pairs = list_all (\<lambda>tv. fst tv \<notin> set Object_prototype_keys) pairs"

text \<open>
  The task map after the pairs \<open>pairs\<close> have been added to the empty one: a task for each
  task name, with the versions of the name in the order they were added.
\<close>

definition task_entry ::
  "Branch \<Rightarrow> Program \<Rightarrow> string \<Rightarrow> (string \<times> string) list \<Rightarrow> string \<Rightarrow> string \<times> TaskBranch" where
  "task_entry this pg dir pairs task =
     (task, \<lparr>task_Parent = this, task_Name = task, task_Program = Some pg, task_Dir = dir,
             Versions = versions_of task pairs\<rparr>)"

definition holds_pairs ::
  "Branch \<Rightarrow> Program \<Rightarrow> string \<Rightarrow> (string \<times> TaskBranch) list \<Rightarrow> (string \<times> string) list \<Rightarrow> bool" where
  "holds_pairs this pg dir tm pairs =
     (distinct (map fst tm) \<and> set (map fst tm) = set (map fst pairs) \<and>
      tm = map (task_entry this pg dir pairs) (map fst tm))"

fun add_versions ::
  "Branch \<Rightarrow> Program \<Rightarrow> string \<Rightarrow> (string \<times> TaskBranch) list \<Rightarrow> (string \<times> string) list
     \<Rightarrow> error + (string \<times> TaskBranch) list" where
  "add_versions this pg dir tm [] = Inr tm"
| "add_versions this pg dir tm (tv # pairs) =
     (case add_version this pg dir tm (fst tv) (snd tv) of
        Inl e \<Rightarrow> Inl e
      | Inr tm' \<Rightarrow> add_versions this pg dir tm' pairs)"

section \<open>Well-formed file systems\<close>

text \<open>
  A name of a directory entry is \<open>plain\<close>: not empty, not \<open>.\<close> or \<open>..\<close>, and
  without a separator or a null character. In a well-formed file system no place is listed twice, every segment
  of every place is plain and every entry lies in a directory.
\<close>

definition plain :: "string \<Rightarrow> bool" where
  "plain w =
     (w \<noteq> [] \<and> w \<noteq> ''.'' \<and> w \<noteq> ''..'' \<and> CHR ''/'' \<notin> set w \<and> CHR 0x00 \<notin> set w)"

definition is_directory :: "node option \<Rightarrow> bool" where
  "is_directory n = (case n of Some (Directory m a) \<Rightarrow> True | _ \<Rightarrow> False)"

definition wf_entry :: "fs \<Rightarrow> string list \<times> node \<Rightarrow> bool" where
  "wf_entry fs e =
     (list_all plain (fst e) \<and> fst e \<noteq> [] \<and> is_directory (node_at fs (butlast (fst e))))"

definition wf_fs :: "fs \<Rightarrow> bool" where
  "wf_fs fs = (distinct (map fst fs) \<and> list_all (wf_entry fs) fs)"

text \<open>The place a path names when it is read as text only, as \<open>path.normalize\<close> does.\<close>

definition resolve :: "string \<Rightarrow> string list" where
  "resolve p = foldl (norm_step False) [] (split_on CHR ''/'' p)"

definition clean :: "string list \<Rightarrow> bool" where
  "clean ks = list_all (\<lambda>k. k \<noteq> [] \<and> k \<noteq> ''.'' \<and> k \<noteq> ''..'') ks"

section \<open>A sample site\<close>

text \<open>
  A small schema with one category, one part and one program, and the branches of the show
  \<open>sh01\<close>, used to run the theorems below on concrete inputs.
\<close>

definition example_nuke :: Program where
  "example_nuke =
     \<lparr>prog_Name = ''nuke'', prog_Ext = ''.nk'',
      prog_CreateCmd = [(''linux'', ''runner/nuke_create.sh'')],
      prog_OpenCmd = [(''linux'', ''runner/nuke_open.sh'')]\<rparr>"

definition example_comp :: PartInfo where
  "example_comp =
     \<lparr>part_Label = ''comp'',
      part_Subdirs = [\<lparr>dir_Name = [], dir_Perm = ''2775''\<rparr>,
                      \<lparr>dir_Name = ''scenes'', dir_Perm = ''2775''\<rparr>],
      part_ProgramDir = [(''nuke'', ''scenes'')]\<rparr>"

definition example_info :: SiteInfo where
  "example_info =
     \<lparr>site_show =
        \<lparr>info_Label = ''show'',
         info_Subdirs = [\<lparr>dir_Name = [], dir_Perm = ''0755''\<rparr>,
                         \<lparr>dir_Name = ''shot'', dir_Perm = ''2775''\<rparr>],
         info_ChildRoot = []\<rparr>,
      site_category = \<lparr>info_Label = ''category'', info_Subdirs = [], info_ChildRoot = []\<rparr>,
      site_categories =
        [(''shot'',
          \<lparr>ctg_group =
             \<lparr>info_Label = ''sequence'',
              info_Subdirs = [\<lparr>dir_Name = [], dir_Perm = ''2775''\<rparr>],
              info_ChildRoot = []\<rparr>,
           ctg_unit =
             \<lparr>info_Label = ''shot'',
              info_Subdirs = [\<lparr>dir_Name = [], dir_Perm = ''2775''\<rparr>,
                              \<lparr>dir_Name = ''work'', dir_Perm = ''2775''\<rparr>],
              info_ChildRoot = ''work''\<rparr>,
           ctg_part = [(''comp'', example_comp)]\<rparr>)],
      site_programs = [(''nuke'', example_nuke)]\<rparr>"

definition example_globals :: globals where
  "example_globals =
     \<lparr>siteRoot = ''/site'', showRoot = ''/show'', siteInfo = example_info\<rparr>"



definition example_show :: Branch where
  "example_show =
     Branch None ''show'' ''sh01'' ''/show/sh01''
       (Some [\<lparr>dir_Name = [], dir_Perm = ''0755''\<rparr>, \<lparr>dir_Name = ''shot'', dir_Perm = ''2775''\<rparr>])
       ''/show/sh01'' None"

definition example_category :: Branch where
  "example_category =
     Branch (Some example_show) ''category'' ''shot'' ''/show/sh01/shot'' (Some [])
       ''/show/sh01/shot'' None"

definition example_group :: Branch where
  "example_group =
     Branch (Some example_category) ''group'' ''g1'' ''/show/sh01/shot/g1''
       (Some [\<lparr>dir_Name = [], dir_Perm = ''2775''\<rparr>]) ''/show/sh01/shot/g1'' None"

definition example_unit :: Branch where
  "example_unit =
     Branch (Some example_group) ''unit'' ''u1'' ''/show/sh01/shot/g1/u1''
       (Some [\<lparr>dir_Name = [], dir_Perm = ''2775''\<rparr>, \<lparr>dir_Name = ''work'', dir_Perm = ''2775''\<rparr>])
       ''/show/sh01/shot/g1/u1/work'' None"

definition example_part :: Branch where
  "example_part =
     Branch (Some example_unit) ''part'' ''comp'' ''/show/sh01/shot/g1/u1/work/comp''
       (Some (part_Subdirs example_comp)) ''/show/sh01/shot/g1/u1/work/comp''
       (Some [(''nuke'', ''scenes'')])"

text \<open>
  A file system with the directories of the sample branches and scene files of two tasks, in
  an order that is not sorted.
\<close>

definition example_dirs :: fs where
  "example_dirs =
     [([''show''], Directory None []),
      ([''show'', ''sh01''], Directory (Some 493) []),
      ([''show'', ''sh01'', ''shot''], Directory (Some 1533) []),
      ([''show'', ''sh01'', ''shot'', ''g1''], Directory (Some 1533) []),
      ([''show'', ''sh01'', ''shot'', ''g1'', ''u1''], Directory (Some 1533) []),
      ([''show'', ''sh01'', ''shot'', ''g1'', ''u1'', ''work''], Directory (Some 1533) []),
      ([''show'', ''sh01'', ''shot'', ''g1'', ''u1'', ''work'', ''comp''], Directory (Some 1533) []),
      ([''show'', ''sh01'', ''shot'', ''g1'', ''u1'', ''work'', ''comp'', ''scenes''],
       Directory (Some 1533) [])]"

definition example_file :: "string \<Rightarrow> string list \<times> node" where
  "example_file name =
     ([''show'', ''sh01'', ''shot'', ''g1'', ''u1'', ''work'', ''comp'', ''scenes'', name], File)"

definition example_scenes :: fs where
  "example_scenes =
     example_dirs @
     map example_file
       [''sh01_g1_u1_comp_main_v010.nk'', ''sh01_g1_u1_comp_main_v002.nk'',
        ''sh01_g1_u1_comp_layout_fix_v20.nk'', ''sh01_g1_u1_comp_main_v000.nk'',
        ''sh01_g1_u1_comp_main_v001.nk'', ''sh01_g1_u1_comp_layout_fix_v100.nk'',
        ''notes.txt'']"

definition example_tasks :: "TaskBranch list" where
  "example_tasks =
     [\<lparr>task_Parent = example_part, task_Name = ''layout_fix'', task_Program = Some example_nuke,
       task_Dir = ''/show/sh01/shot/g1/u1/work/comp/scenes'', Versions = [''v100'', ''v20'']\<rparr>,
      \<lparr>task_Parent = example_part, task_Name = ''main'', task_Program = Some example_nuke,
       task_Dir = ''/show/sh01/shot/g1/u1/work/comp/scenes'', Versions = [''v001'', ''v002'', ''v010'']\<rparr>]"

lemma split_on_nonempty: "split_on c s \<noteq> []"
  by (induction s) (auto split: list.splits)

lemma split_on_append: "split_on c (a @ c # b) = split_on c a @ split_on c b"
  by (induction a) (auto simp: split_on_nonempty split: list.splits)

lemma split_on_plain: "c \<notin> set s \<Longrightarrow> split_on c s = [s]"
  by (induction s) auto

lemma split_on_free: "w \<in> set (split_on c s) \<Longrightarrow> c \<notin> set w"
proof (induction s arbitrary: w)
  case Nil
  then show ?case by simp
next
  case (Cons x xs)
  show ?case
  proof (cases "x = c")
    case True
    with Cons show ?thesis by auto
  next
    case False
    obtain h t where ht: "split_on c xs = h # t"
      using split_on_nonempty[of c xs] by (cases "split_on c xs") auto
    with Cons False show ?thesis by (auto split: list.splits)
  qed
qed

lemma split_on_join:
  "ws \<noteq> [] \<Longrightarrow> \<forall>w \<in> set ws. c \<notin> set w \<Longrightarrow> split_on c (join_str [c] ws) = ws"
proof (induction "[c]" ws rule: join_str.induct)
  case 1
  then show ?case by simp
next
  case (2 w)
  then show ?case by (simp add: split_on_plain)
next
  case (3 w v ws)
  then have "split_on c (join_str [c] (v # ws)) = v # ws" by simp
  moreover have "split_on c (w @ c # join_str [c] (v # ws)) = split_on c w @ split_on c (join_str [c] (v # ws))"
    by (rule split_on_append)
  ultimately show ?case using 3 by (simp add: split_on_plain)
qed

lemma norm_step_skip: "norm_step b res [] = res" "norm_step b res ''.'' = res"
  by (simp_all add: norm_step_def)

lemma norm_step_up:
  "norm_step b res ''..'' =
     (if res \<noteq> [] \<and> last res \<noteq> ''..'' then butlast res
      else if b then res @ [''..''] else res)"
  by (simp add: norm_step_def)

lemma norm_step_push:
  "seg \<noteq> [] \<Longrightarrow> seg \<noteq> ''.'' \<Longrightarrow> seg \<noteq> ''..'' \<Longrightarrow> norm_step b res seg = res @ [seg]"
  by (simp add: norm_step_def)

lemmas norm_step_eq = norm_step_skip norm_step_up norm_step_push

lemma foldl_clean: "clean ys \<Longrightarrow> foldl (norm_step b) acc ys = acc @ ys"
  by (induction ys arbitrary: acc) (auto simp: clean_def list_all_iff norm_step_eq)

lemma norm_inv:
  "clean (foldl (norm_step False) [] xs) \<and>
   (\<exists>n. foldl (norm_step True) [] xs = replicate n ''..'' @ foldl (norm_step False) [] xs)"
proof (induction xs rule: rev_induct)
  case Nil
  show ?case by (simp add: clean_def list_all_iff)
next
  case (snoc x xs)
  let ?F = "foldl (norm_step False) [] xs"
  let ?T = "foldl (norm_step True) [] xs"
  from snoc obtain n where cl: "clean ?F" and T: "?T = replicate n ''..'' @ ?F" by blast
  show ?case
  proof (cases "x = [] \<or> x = ''.''")
    case True
    then show ?thesis using cl T by (auto simp: norm_step_eq)
  next
    case False
    note nf = this
    show ?thesis
    proof (cases "x = ''..''")
      case False
      then show ?thesis using nf cl T by (auto simp: norm_step_eq clean_def list_all_iff)
    next
      case True
      show ?thesis
      proof (cases "?F = []")
        case True
        have "?T = replicate n ''..''" using T True by simp
        then have "norm_step True ?T x = replicate (Suc n) ''..''"
          using \<open>x = ''..''\<close> by (cases n) (auto simp: norm_step_eq replicate_append_same)
        moreover have "norm_step False ?F x = []" using True \<open>x = ''..''\<close> by (simp add: norm_step_eq)
        ultimately have "clean (foldl (norm_step False) [] (xs @ [x]))"
          and "foldl (norm_step True) [] (xs @ [x]) =
                 replicate (Suc n) ''..'' @ foldl (norm_step False) [] (xs @ [x])"
          by (simp_all add: clean_def list_all_iff)
        then show ?thesis by blast
      next
        case False
        then have lF: "last ?F \<noteq> ''..''" using cl by (auto simp: clean_def list_all_iff)
        have lT: "last ?T = last ?F" "?T \<noteq> []" using T False by auto
        have bT: "butlast ?T = replicate n ''..'' @ butlast ?F" using T False by (simp add: butlast_append)
        have "norm_step True ?T x = replicate n ''..'' @ butlast ?F"
          using \<open>x = ''..''\<close> lT lF bT by (simp add: norm_step_eq)
        moreover have "norm_step False ?F x = butlast ?F"
          using \<open>x = ''..''\<close> False lF by (simp add: norm_step_eq)
        moreover have "clean (butlast ?F)" using cl by (auto simp: clean_def list_all_iff dest: in_set_butlastD)
        ultimately show ?thesis by auto
      qed
    qed
  qed
qed


lemma norm_segs_set:
  "set (foldl (norm_step b) acc xs) \<subseteq> set acc \<union> {x \<in> set xs. x \<noteq> []}"
proof (induction xs arbitrary: acc)
  case Nil
  show ?case by simp
next
  case (Cons x xs)
  have "set (norm_step b acc x) \<subseteq> set acc \<union> {y. y = x \<and> x \<noteq> []}"
    by (auto simp: norm_step_def dest: in_set_butlastD)
  with Cons[of "norm_step b acc x"] show ?case by auto
qed

lemma join_str_Nil: "\<forall>w \<in> set ws. w \<noteq> [] \<Longrightarrow> (join_str sep ws = []) = (ws = [])"
  by (induction sep ws rule: join_str.induct) auto

lemma foldl_ups: "foldl (norm_step False) [] (replicate n ''..'' @ ys) = foldl (norm_step False) [] ys"
  by (induction n) (simp_all add: norm_step_up)

lemma resolve_normalized:
  "foldl (norm_step False) [] (foldl (norm_step b) [] xs) = foldl (norm_step False) [] xs"
proof -
  from norm_inv[of xs] obtain n where cl: "clean (foldl (norm_step False) [] xs)"
    and T: "foldl (norm_step True) [] xs = replicate n ''..'' @ foldl (norm_step False) [] xs"
    by blast
  show ?thesis
  proof (cases b)
    case False
    then show ?thesis using foldl_clean[OF cl, of False "[]"] by simp
  next
    case True
    then show ?thesis using T foldl_ups[of n] foldl_clean[OF cl, of False "[]"] by simp
  qed
qed

lemma split_on_snoc: "split_on c (a @ [c]) = split_on c a @ [[]]"
  using split_on_append[of c a "[]"] by simp

lemma resolve_normalize_path: "resolve (normalize_path p) = resolve p"
proof (cases "p = []")
  case True
  then show ?thesis by (simp add: normalize_path_def resolve_def norm_step_skip)
next
  case False
  define b where "b = (hd p \<noteq> CHR ''/'')"
  define cs where "cs = foldl (norm_step b) [] (split_on CHR ''/'' p)"
  have mem: "\<forall>w \<in> set cs. w \<noteq> [] \<and> CHR ''/'' \<notin> set w"
    using norm_segs_set[of b "[]" "split_on CHR ''/'' p"] split_on_free[of _ "CHR ''/''" p]
    by (auto simp: cs_def)
  have key: "foldl (norm_step False) [] cs = resolve p"
    by (simp add: cs_def resolve_def resolve_normalized)
  have q: "normalizeString p b = join_str ''/'' cs"
    by (simp add: normalizeString_def cs_def)
  show ?thesis
  proof (cases "cs = []")
    case True
    then have "normalizeString p b = []" using q by simp
    moreover have "resolve ''/'' = []" "resolve ''./'' = []" "resolve ''.'' = []"
      by (simp_all add: resolve_def norm_step_skip)
    ultimately show ?thesis using False key True
      by (simp add: normalize_path_def b_def Let_def)
  next
    case ne: False
    then have qne: "join_str ''/'' cs \<noteq> []" using mem join_str_Nil[of cs "''/''"] by blast
    have sp: "split_on CHR ''/'' (join_str ''/'' cs) = cs"
      using split_on_join[of cs "CHR ''/''"] ne mem by simp
    have pre: "\<And>s. foldl (norm_step False) [] (split_on CHR ''/'' (CHR ''/'' # s))
                 = foldl (norm_step False) [] (split_on CHR ''/'' s)"
      by (simp add: norm_step_skip)
    have post: "\<And>s. foldl (norm_step False) [] (split_on CHR ''/'' (s @ ''/''))
                 = foldl (norm_step False) [] (split_on CHR ''/'' s)"
      by (simp add: split_on_snoc norm_step_skip)
    have "resolve (normalize_path p) = foldl (norm_step False) [] (split_on CHR ''/'' (join_str ''/'' cs))"
      using False qne q pre post[of "join_str ''/'' cs"] post[of "CHR ''/'' # join_str ''/'' cs"]
      by (auto simp: normalize_path_def b_def Let_def resolve_def)
    then show ?thesis using sp key by simp
  qed
qed

lemma resolve_path_join:
  "resolve (path_join a b) = foldl (norm_step False) (resolve a) (split_on CHR ''/'' b)"
proof -
  have e: "resolve [] = []" "resolve ''.'' = []" by (simp_all add: resolve_def norm_step_skip)
  show ?thesis
  proof (cases "b = []")
    case True
    then show ?thesis by (cases "a = []") (simp_all add: path_join_def resolve_normalize_path e norm_step_skip)
  next
    case bne: False
    show ?thesis
    proof (cases "a = []")
      case True
      then show ?thesis using bne by (simp add: path_join_def resolve_normalize_path e) (simp add: resolve_def)
    next
      case False
      have "resolve (a @ ''/'' @ b) = foldl (norm_step False) (resolve a) (split_on CHR ''/'' b)"
        using split_on_append[of "CHR ''/''" a b] by (simp add: resolve_def)
      then show ?thesis using False bne by (simp add: path_join_def resolve_normalize_path)
    qed
  qed
qed

lemma resolve_path_join_plain: "plain f \<Longrightarrow> resolve (path_join d f) = resolve d @ [f]"
  by (simp add: resolve_path_join plain_def split_on_plain norm_step_push)



lemma walk_Cons_dir:
  "is_directory (node_at fs cur) \<Longrightarrow> walk fs cur (c # cs) = walk fs (enter cur c) cs"
  by (cases "node_at fs cur") (auto simp: is_directory_def split: node.splits)

lemma walk_Cons_Inr:
  "walk fs cur (c # cs) = Inr k \<Longrightarrow> is_directory (node_at fs cur) \<and> walk fs (enter cur c) cs = Inr k"
  by (cases "node_at fs cur") (auto simp: is_directory_def split: node.splits)

lemma walk_Cons_not_dir:
  "\<not> is_directory (node_at fs cur) \<Longrightarrow> \<exists>code. walk fs cur (c # cs) = Inl code"
  by (cases "node_at fs cur") (auto simp: is_directory_def split: node.splits)

lemma walk_append:
  "walk fs cur (xs @ ys) = (case walk fs cur xs of Inl e \<Rightarrow> Inl e | Inr k \<Rightarrow> walk fs k ys)"
proof (induction xs arbitrary: cur)
  case Nil
  show ?case by simp
next
  case (Cons x xs)
  show ?case
  proof (cases "is_directory (node_at fs cur)")
    case True
    then show ?thesis using Cons.IH[of "enter cur x"] by (simp add: walk_Cons_dir del: walk.simps)
  next
    case False
    from walk_Cons_not_dir[OF False, of x "xs @ ys"] walk_Cons_not_dir[OF False, of x xs]
    obtain c1 c2 where c: "walk fs cur (x # xs @ ys) = Inl c1" "walk fs cur (x # xs) = Inl c2"
      by blast
    have "c1 = c2" using c False
      by (cases "node_at fs cur") (auto simp: is_directory_def split: node.splits)
    then show ?thesis using c by simp
  qed
qed

lemma walk_result: "walk fs cur xs = Inr k \<Longrightarrow> k = foldl enter cur xs"
proof (induction xs arbitrary: cur)
  case Nil
  then show ?case by simp
next
  case (Cons x xs)
  from walk_Cons_Inr[OF Cons.prems] have "walk fs (enter cur x) xs = Inr k" by simp
  from Cons.IH[OF this] show ?case by simp
qed

lemma clean_butlast: "clean ks \<Longrightarrow> clean (butlast ks)"
  unfolding clean_def list_all_iff by (meson in_set_butlastD)

lemma clean_snoc: "clean ks \<Longrightarrow> c \<noteq> [] \<Longrightarrow> c \<noteq> ''.'' \<Longrightarrow> c \<noteq> ''..'' \<Longrightarrow> clean (ks @ [c])"
  by (simp add: clean_def)

lemma clean_last: "clean ks \<Longrightarrow> ks \<noteq> [] \<Longrightarrow> last ks \<noteq> ''..''"
  unfolding clean_def list_all_iff using last_in_set by blast

lemma enter_norm_step: "clean cur \<Longrightarrow> enter cur c = norm_step False cur c \<and> clean (enter cur c)"
proof -
  assume cl: "clean cur"
  show ?thesis
  proof (cases "c = [] \<or> c = ''.''")
    case True
    then show ?thesis using cl by (auto simp: enter_def norm_step_skip)
  next
    case False
    note nf = this
    show ?thesis
    proof (cases "c = ''..''")
      case True
      have "enter cur c = butlast cur" using True by (simp add: enter_def)
      moreover have "norm_step False cur c = butlast cur"
        using True clean_last[OF cl] by (cases "cur = []") (simp_all add: norm_step_up)
      ultimately show ?thesis using clean_butlast[OF cl] by simp
    next
      case False
      have "enter cur c = cur @ [c]" using False nf by (simp add: enter_def)
      moreover have "norm_step False cur c = cur @ [c]" using False nf by (simp add: norm_step_push)
      ultimately show ?thesis using clean_snoc[OF cl] False nf by simp
    qed
  qed
qed

lemma foldl_enter: "clean cur \<Longrightarrow> foldl enter cur xs = foldl (norm_step False) cur xs"
proof (induction xs arbitrary: cur)
  case Nil
  show ?case by simp
next
  case (Cons x xs)
  from enter_norm_step[OF Cons.prems, of x]
  have e: "enter cur x = norm_step False cur x" and c: "clean (enter cur x)" by blast+
  have "foldl enter (enter cur x) xs = foldl (norm_step False) (enter cur x) xs"
    by (rule Cons.IH[OF c])
  then show ?case by (simp add: e)
qed

lemma walk_resolve: "walk fs [] (split_on CHR ''/'' p) = Inr k \<Longrightarrow> k = resolve p"
  using walk_result[of fs "[]" "split_on CHR ''/'' p" k] foldl_enter[of "[]"]
  by (simp add: resolve_def clean_def)

lemma locate_resolve: "locate fs p = Inr (k, n) \<Longrightarrow> k = resolve p \<and> node_at fs k = Some n"
  by (auto simp: locate_def split: if_splits sum.splits option.splits dest: walk_resolve)

lemma root_directory: "is_directory (node_at fs [])"
  by (simp add: is_directory_def node_at_def)

lemma walk_skip:
  "walk fs [] ([] # xs) = walk fs [] xs" "walk fs [] (''..'' # xs) = walk fs [] xs"
  by (simp_all add: walk_Cons_dir root_directory enter_def del: walk.simps)

lemma walk_ups: "walk fs [] (replicate n ''..'' @ xs) = walk fs [] xs"
  by (induction n) (simp_all add: walk_skip del: walk.simps)

lemma enter_plain: "plain c \<Longrightarrow> enter cur c = cur @ [c]"
  by (simp add: enter_def plain_def)

lemma walk_plain:
  assumes "list_all plain xs"
    and "\<forall>i < length xs. is_directory (node_at fs (cur @ take i xs))"
  shows "walk fs cur xs = Inr (cur @ xs)"
  using assms
proof (induction xs arbitrary: cur)
  case Nil
  show ?case by simp
next
  case (Cons x xs)
  have d: "is_directory (node_at fs cur)" using Cons.prems(2)[rule_format, of 0] by simp
  have "\<forall>i < length xs. is_directory (node_at fs ((cur @ [x]) @ take i xs))"
  proof (intro allI impI)
    fix i assume "i < length xs"
    then show "is_directory (node_at fs ((cur @ [x]) @ take i xs))"
      using Cons.prems(2)[rule_format, of "Suc i"] by simp
  qed
  then have "walk fs (cur @ [x]) xs = Inr ((cur @ [x]) @ xs)"
    using Cons.IH[of "cur @ [x]"] Cons.prems(1) by simp
  moreover have "enter cur x = cur @ [x]" using Cons.prems(1) by (simp add: enter_plain)
  ultimately show ?case using d by (simp add: walk_Cons_dir del: walk.simps)
qed

lemma walk_dir_end:
  "is_directory (node_at fs cur) \<Longrightarrow> walk fs cur [[]] = Inr cur"
  using walk_Cons_dir[of fs cur "[]" "[]"] by (simp add: enter_def)

section \<open>Properties of the file system\<close>

lemma set_split_on: "w \<in> set (split_on c s) \<Longrightarrow> set w \<subseteq> set s"
proof (induction s arbitrary: w)
  case Nil
  then show ?case by simp
next
  case (Cons x xs)
  show ?case
  proof (cases "x = c")
    case True
    with Cons show ?thesis by auto
  next
    case False
    obtain h t where ht: "split_on c xs = h # t"
      using split_on_nonempty[of c xs] by (cases "split_on c xs") auto
    have "set h \<subseteq> set xs" using Cons.IH[of h] ht by simp
    moreover have "\<And>v. v \<in> set t \<Longrightarrow> set v \<subseteq> set xs" using Cons.IH ht by simp
    ultimately show ?thesis using Cons.prems False ht by auto
  qed
qed

lemma set_join_str: "set (join_str sep ws) \<subseteq> set sep \<union> \<Union> (set ` set ws)"
  by (induction sep ws rule: join_str.induct) auto

lemma set_normalize_path: "set (normalize_path p) \<subseteq> set p \<union> {CHR ''/'', CHR ''.''}"
proof (cases "p = []")
  case True
  then show ?thesis by (simp add: normalize_path_def)
next
  case False
  have "set (normalizeString p b) \<subseteq> set p \<union> {CHR ''/''}" for b
  proof -
    have "\<Union> (set ` set (foldl (norm_step b) [] (split_on CHR ''/'' p))) \<subseteq> set p"
      using norm_segs_set[of b "[]" "split_on CHR ''/'' p"] set_split_on[of _ "CHR ''/''" p]
      by auto
    moreover have "set (join_str ''/'' (foldl (norm_step b) [] (split_on CHR ''/'' p)))
            \<subseteq> {CHR ''/''} \<union> \<Union> (set ` set (foldl (norm_step b) [] (split_on CHR ''/'' p)))"
      using set_join_str[of "''/''" "foldl (norm_step b) [] (split_on CHR ''/'' p)"] by simp
    ultimately show ?thesis unfolding normalizeString_def by blast
  qed
  then show ?thesis using False by (auto simp: normalize_path_def Let_def)
qed

lemma path_join_no_null:
  "CHR 0x00 \<notin> set a \<Longrightarrow> CHR 0x00 \<notin> set b \<Longrightarrow> CHR 0x00 \<notin> set (path_join a b)"
proof -
  assume a: "CHR 0x00 \<notin> set a" and b: "CHR 0x00 \<notin> set b"
  have n: "CHR 0x00 \<notin> set p \<Longrightarrow> CHR 0x00 \<notin> set (normalize_path p)" for p
    using set_normalize_path[of p] by auto
  show ?thesis using a b by (auto simp: path_join_def Let_def intro!: n)
qed

lemma node_at_key: "k \<noteq> [] \<Longrightarrow> node_at fs k = map_of fs k"
  by (simp add: node_at_def)

lemma wf_fs_entry: "wf_fs fs \<Longrightarrow> map_of fs k = Some n \<Longrightarrow> wf_entry fs (k, n)"
  by (auto simp: wf_fs_def list_all_iff dest: map_of_SomeD)

lemma is_directory_Some: "is_directory x \<Longrightarrow> \<exists>m a. x = Some (Directory m a)"
  by (auto simp: is_directory_def split: option.splits node.splits)

lemma dir_plain:
  "wf_fs fs \<Longrightarrow> node_at fs k = Some n \<Longrightarrow> list_all plain k"
  by (cases "k = []") (auto simp: node_at_key wf_entry_def dest: wf_fs_entry)

lemma wf_ancestors:
  "wf_fs fs \<Longrightarrow> node_at fs k = Some n \<Longrightarrow> i < length k \<Longrightarrow> is_directory (node_at fs (take i k))"
proof (induction k arbitrary: n i rule: rev_induct)
  case Nil
  then show ?case by simp
next
  case (snoc x xs)
  have "map_of fs (xs @ [x]) = Some n" using snoc.prems(2) by (simp add: node_at_key)
  from wf_fs_entry[OF snoc.prems(1) this]
  have d: "is_directory (node_at fs xs)" by (simp add: wf_entry_def)
  show ?case
  proof (cases "i = length xs")
    case True
    then show ?thesis using d by simp
  next
    case False
    then have i: "i < length xs" using snoc.prems(3) by simp
    from is_directory_Some[OF d] obtain m a where "node_at fs xs = Some (Directory m a)" by blast
    from snoc.IH[OF snoc.prems(1) this i] show ?thesis using i by simp
  qed
qed

lemma walk_to:
  assumes "wf_fs fs" and "is_directory (node_at fs k)" and "plain f"
  shows "walk fs [] (k @ [f]) = Inr (k @ [f])"
proof -
  from is_directory_Some[OF assms(2)] obtain m a where n: "node_at fs k = Some (Directory m a)"
    by blast
  have p: "list_all plain (k @ [f])" using dir_plain[OF assms(1) n] assms(3) by simp
  have "\<forall>i < length (k @ [f]). is_directory (node_at fs ([] @ take i (k @ [f])))"
  proof (intro allI impI)
    fix i assume "i < length (k @ [f])"
    then consider "i < length k" | "i = length k" by fastforce
    then show "is_directory (node_at fs ([] @ take i (k @ [f])))"
    proof cases
      case 1
      then show ?thesis using wf_ancestors[OF assms(1) n 1] by simp
    next
      case 2
      then show ?thesis using assms(2) by simp
    qed
  qed
  from walk_plain[OF p this] show ?thesis by simp
qed

lemma walk_normalize_path:
  assumes "p \<noteq> []" and "last p \<noteq> CHR ''/''" and "resolve p \<noteq> []"
  shows "walk fs [] (split_on CHR ''/'' (normalize_path p)) = walk fs [] (resolve p)"
proof -
  define b where "b = (hd p \<noteq> CHR ''/'')"
  define cs where "cs = foldl (norm_step b) [] (split_on CHR ''/'' p)"
  have mem: "\<forall>w \<in> set cs. w \<noteq> [] \<and> CHR ''/'' \<notin> set w"
    using norm_segs_set[of b "[]" "split_on CHR ''/'' p"] split_on_free[of _ "CHR ''/''" p]
    by (auto simp: cs_def)
  from norm_inv[of "split_on CHR ''/'' p"] obtain n where
    T: "foldl (norm_step True) [] (split_on CHR ''/'' p) = replicate n ''..'' @ resolve p"
    by (auto simp: resolve_def)
  have cs: "cs = (if b then replicate n ''..'' else []) @ resolve p"
    using T by (simp add: cs_def resolve_def)
  then have ne: "cs \<noteq> []" using assms(3) by simp
  have q: "normalizeString p b = join_str ''/'' cs"
    by (simp add: normalizeString_def cs_def)
  have qne: "join_str ''/'' cs \<noteq> []" using mem join_str_Nil[of cs "''/''"] ne by blast
  have sp: "split_on CHR ''/'' (join_str ''/'' cs) = cs"
    using split_on_join[of cs "CHR ''/''"] ne mem by simp
  have "split_on CHR ''/'' (normalize_path p) = (if b then [] else [[]]) @ cs"
    using assms(1,2) q qne sp by (simp add: normalize_path_def Let_def b_def)
  then show ?thesis using cs walk_ups[of fs n "resolve p"] by (simp add: walk_skip del: walk.simps)
qed

lemma path_join_plain_eq:
  "plain f \<Longrightarrow> path_join d f = normalize_path (if d = [] then f else d @ ''/'' @ f)"
  by (simp add: path_join_def plain_def Let_def)

lemma resolve_joined:
  "plain f \<Longrightarrow> resolve (if d = [] then f else d @ ''/'' @ f) = resolve d @ [f]"
  using resolve_path_join_plain[of f d] by (simp add: path_join_plain_eq resolve_normalize_path)

lemma locate_child:
  assumes "wf_fs fs" and "plain f" and "CHR 0x00 \<notin> set d"
    and "is_directory (node_at fs (resolve d))"
  shows "locate fs (path_join d f) =
           (case node_at fs (resolve d @ [f]) of
              None \<Rightarrow> Inl (SystemError ''ENOENT'' (path_join d f))
            | Some n \<Rightarrow> Inr (resolve d @ [f], n))"
proof -
  let ?p = "if d = [] then f else d @ ''/'' @ f"
  have fne: "f \<noteq> []" and fs: "CHR ''/'' \<notin> set f" using assms(2) by (auto simp: plain_def)
  have "last f \<in> set f" using fne by simp
  then have "last f \<noteq> CHR ''/''" using fs by metis
  then have p: "?p \<noteq> []" "last ?p \<noteq> CHR ''/''" using fne by auto
  have r: "resolve ?p = resolve d @ [f]" using assms(2) by (rule resolve_joined)
  have "walk fs [] (split_on CHR ''/'' (normalize_path ?p)) = walk fs [] (resolve d @ [f])"
    using walk_normalize_path[OF p] r by simp
  then have w: "walk fs [] (split_on CHR ''/'' (path_join d f)) = Inr (resolve d @ [f])"
    using walk_to[OF assms(1,4,2)] assms(2) by (simp add: path_join_plain_eq)
  have z: "CHR 0x00 \<notin> set (path_join d f)"
    using path_join_no_null[OF assms(3)] assms(2) by (simp add: plain_def)
  have ne: "path_join d f \<noteq> []"
  proof
    assume "path_join d f = []"
    then have "walk fs [] (split_on CHR ''/'' (path_join d f)) = Inr []"
      using walk_skip(1)[of fs "[]"] by simp
    then show False using w by simp
  qed
  show ?thesis using w z ne by (simp add: locate_def)
qed

lemma locate_Inr:
  "locate fs p = Inr (k, n) \<Longrightarrow> k = resolve p \<and> node_at fs k = Some n \<and> CHR 0x00 \<notin> set p"
  by (auto simp: locate_def split: if_splits sum.splits option.splits dest: walk_resolve)

lemma readdirSync_Inr:
  assumes "readdirSync fs d = Inr files"
  shows "is_directory (node_at fs (resolve d)) \<and> files = children fs (resolve d)
         \<and> CHR 0x00 \<notin> set d \<and> existsSync fs d"
proof -
  from assms obtain k n where l: "locate fs d = Inr (k, n)"
    by (cases "locate fs d") (auto simp: readdirSync_def)
  from locate_Inr[OF l] have k: "k = resolve d" "node_at fs k = Some n" "CHR 0x00 \<notin> set d"
    by blast+
  have "n \<noteq> File" using assms l by (auto simp: readdirSync_def)
  then obtain m a where n: "n = Directory m a" by (cases n) auto
  have f: "files = children fs k" using assms l n by (simp add: readdirSync_def)
  show ?thesis using k n f l by (simp add: is_directory_def existsSync_def)
qed

lemma children_iff:
  assumes "wf_fs fs"
  shows "(f \<in> set (children fs k)) = (map_of fs (k @ [f]) \<noteq> None)"
proof
  assume "f \<in> set (children fs k)"
  then obtain e where e: "e \<in> set fs" "fst e \<noteq> []" "butlast (fst e) = k" "f = last (fst e)"
    by (auto simp: children_def)
  then have "fst e = k @ [f]" using append_butlast_last_id[of "fst e"] by simp
  then have "(k @ [f], snd e) \<in> set fs" using e(1) by (metis prod.collapse)
  then show "map_of fs (k @ [f]) \<noteq> None"
    using assms by (auto simp: wf_fs_def)
next
  assume "map_of fs (k @ [f]) \<noteq> None"
  then obtain n where "map_of fs (k @ [f]) = Some n" by blast
  then have "(k @ [f], n) \<in> set fs" by (rule map_of_SomeD)
  then show "f \<in> set (children fs k)" by (force simp: children_def)
qed

lemma children_plain:
  assumes "wf_fs fs" and "f \<in> set (children fs k)"
  shows "plain f"
proof -
  from assms obtain n where "map_of fs (k @ [f]) = Some n" by (auto simp: children_iff)
  from wf_fs_entry[OF assms(1) this] show ?thesis by (simp add: wf_entry_def)
qed

lemma lstat_child:
  assumes "wf_fs fs" and "readdirSync fs d = Inr files" and "f \<in> set files"
  shows "\<exists>n. lstatSync fs (path_join d f) = Inr n \<and> map_of fs (resolve d @ [f]) = Some n"
proof -
  from readdirSync_Inr[OF assms(2)] have r: "is_directory (node_at fs (resolve d))"
    "files = children fs (resolve d)" "CHR 0x00 \<notin> set d" by simp_all
  have p: "plain f" using children_plain[OF assms(1)] assms(3) r(2) by simp
  obtain n where n: "map_of fs (resolve d @ [f]) = Some n"
    using assms(1,3) r(2) by (auto simp: children_iff)
  then have "node_at fs (resolve d @ [f]) = Some n" by (simp add: node_at_key)
  then show ?thesis using locate_child[OF assms(1) p r(3) r(1)] n by (simp add: lstatSync_def)
qed

lemma lstat_in_dir:
  assumes "wf_fs fs" and "readdirSync fs d = Inr files" and "plain f"
    and "lstatSync fs (path_join d f) = Inr n"
  shows "f \<in> set files \<and> map_of fs (resolve d @ [f]) = Some n"
proof -
  from readdirSync_Inr[OF assms(2)] have r: "is_directory (node_at fs (resolve d))"
    "files = children fs (resolve d)" "CHR 0x00 \<notin> set d" by simp_all
  from locate_child[OF assms(1) assms(3) r(3) r(1)] assms(4)
  have "node_at fs (resolve d @ [f]) = Some n"
    by (auto simp: lstatSync_def split: option.splits)
  then have "map_of fs (resolve d @ [f]) = Some n" by (simp add: node_at_key)
  then show ?thesis using r(2) assms(1) by (simp add: children_iff)
qed

section \<open>Properties of the sort functions\<close>

lemma insert_by_set: "set (insert_by cmp x xs) = insert x (set xs)"
  by (induction xs) auto

lemma sort_by_set: "set (sort_by cmp xs) = set xs"
  by (induction xs) (simp_all add: sort_by_def insert_by_set)

lemma insert_by_mset: "mset (insert_by cmp x xs) = add_mset x (mset xs)"
  by (induction xs) auto

lemma sort_by_mset: "mset (sort_by cmp xs) = mset xs"
  by (induction xs) (simp_all add: sort_by_def insert_by_mset)

lemma compare_le: "(compare a b \<le> 0) = (a \<le> b)"
  by (auto simp: compare_def)

lemma sorted_insert_by:
  "sorted (map f xs) \<Longrightarrow> sorted (map f (insert_by (\<lambda>a b. compare (f a) (f b)) x xs))"
  by (induction xs) (auto simp: compare_le insert_by_set)

lemma sorted_sort_by: "sorted (map f (sort_by (\<lambda>a b. compare (f a) (f b)) xs))"
  by (induction xs) (simp_all add: sort_by_def sorted_insert_by)

lemma string_sort_compare: "string_sort xs = sort_by compare xs"
proof -
  have "(\<lambda>a b::string. if a < b then - 1 else if b < a then 1 else (0::int)) = compare"
    by (intro ext) (simp add: compare_def)
  then show ?thesis by (simp add: string_sort_def)
qed

lemma sorted_string_sort: "sorted (string_sort xs)"
  using sorted_sort_by[of "\<lambda>x. x" xs] by (simp add: string_sort_compare)

lemma set_string_sort: "set (string_sort xs) = set xs"
  by (simp add: string_sort_def sort_by_set)

lemma string_sort_sort: "string_sort xs = sort xs"
proof -
  have "mset (string_sort xs) = mset xs" by (simp add: string_sort_compare sort_by_mset)
  from properties_for_sort[OF this sorted_string_sort] show ?thesis by simp
qed

lemma distinct_insert_by:
  "distinct (map f (insert_by cmp x xs)) = (f x \<notin> f ` set xs \<and> distinct (map f xs))"
  by (induction xs) (auto simp: insert_by_set)

lemma distinct_sort_by: "distinct (map f (sort_by cmp xs)) = distinct (map f xs)"
  by (induction xs) (simp_all add: sort_by_def distinct_insert_by sort_by_set[unfolded sort_by_def])

text \<open>Sorting records by a key that no two of them share: the records of the sorted keys.\<close>

lemma sort_by_keys:
  assumes "distinct ks" and "\<And>k. k \<in> set ks \<Longrightarrow> key (h k) = k"
  shows "sort_by (\<lambda>a b. compare (key a) (key b)) (map h ks) = map h (sort ks)"
proof -
  let ?L = "sort_by (\<lambda>a b. compare (key a) (key b)) (map h ks)"
  have k: "map key (map h (sort ks)) = sort ks" using assms(2) by (auto intro: map_idI)
  have s1: "sorted (map key ?L)" by (rule sorted_sort_by)
  have "map key (map h ks) = ks" using assms(2) by (auto intro: map_idI)
  then have d1: "distinct (map key ?L)" using assms(1) by (simp add: distinct_sort_by)
  have set1: "set ?L = h ` set ks" by (simp add: sort_by_set)
  then have "set (map key ?L) = set ks" using assms(2) by (force simp: image_iff)
  then have "map key ?L = sort ks"
    using s1 d1 assms(1) by (intro sorted_distinct_set_unique) simp_all
  then have e: "map key ?L = map key (map h (sort ks))" using k by simp
  have "inj_on key (set ?L \<union> set (map h (sort ks)))"
    using set1 assms(2) by (auto simp: inj_on_def)
  from map_inj_on[OF e this] show ?thesis .
qed

lemma sort_mset_eq: "mset xs = mset ys \<Longrightarrow> sort xs = sort ys"
  by (metis properties_for_sort sorted_sort mset_sort)

lemma sort_remdups_eq: "set xs = set ys \<Longrightarrow> sort (remdups xs) = sort (remdups ys)"
  by (intro sorted_distinct_set_unique) simp_all

lemma example_branches:
  "ShowBranch example_globals ''sh01'' = example_show"
  "Category example_globals example_show ''shot'' = Inr example_category"
  "GroupBranch example_globals example_category ''g1'' = Inr example_group"
  "UnitBranch example_globals example_group ''u1'' = Inr example_unit"
  "PartBranch example_globals example_unit ''comp'' = Inr example_part"
  by code_simp+

lemma example_wf: "wf_fs example_scenes"
  by code_simp

section \<open>Properties of the task map\<close>

lemma scan_file_decode:
  "scan_file fs this pg dir pre tm f0 =
     (case lstatSync fs (path_join dir f0) of
        Inl e \<Rightarrow> Inl e
      | Inr n \<Rightarrow>
          if n \<noteq> File then Inr tm
          else (case decode pg pre f0 of
                  None \<Rightarrow> Inr tm
                | Some tv \<Rightarrow> add_version this pg dir tm (fst tv) (snd tv)))"
  by (simp add: scan_file_def decode_def Let_def split: sum.splits)

lemma js_lookup_Missing: "js_lookup obj k = Missing \<Longrightarrow> k \<notin> fst ` set obj"
  by (auto simp: js_lookup_def map_of_eq_None_iff split: option.splits if_splits)

lemma js_lookup_Own: "js_lookup obj k = Own v \<Longrightarrow> map_of obj k = Some v"
  by (auto simp: js_lookup_def split: option.splits if_splits)

lemma js_lookup_Inherited:
  "js_lookup obj k = Inherited \<Longrightarrow> k \<in> set Object_prototype_keys \<and> k \<notin> fst ` set obj"
  by (auto simp: js_lookup_def map_of_eq_None_iff split: option.splits if_splits)

lemma js_lookup_Some: "map_of obj k = Some v \<Longrightarrow> js_lookup obj k = Own v"
  by (simp add: js_lookup_def)

lemma map_fst_update: "map fst (map (\<lambda>e. if P e then (fst e, h e) else e) tm) = map fst tm"
  by (induction tm) auto

lemma versions_of_append: "versions_of t (ps @ qs) = versions_of t ps @ versions_of t qs"
  by (simp add: versions_of_def)

lemma versions_of_absent: "t \<notin> fst ` set ps \<Longrightarrow> versions_of t ps = []"
  by (auto simp: versions_of_def filter_empty_conv)

lemma holds_pairs_Nil: "holds_pairs this pg dir [] []"
  by (simp add: holds_pairs_def)

lemma fst_task_entry: "map fst (map (task_entry this pg dir ps) ks) = ks"
  by (induction ks) (simp_all add: task_entry_def)

lemma holds_pairsI:
  assumes "distinct ks" and "set ks = fst ` set ps" and "tm = map (task_entry this pg dir ps) ks"
  shows "holds_pairs this pg dir tm ps"
proof -
  have k: "map fst tm = ks" unfolding assms(3) by (rule fst_task_entry)
  have "distinct ks \<and> set ks = set (map fst ps) \<and> tm = map (task_entry this pg dir ps) ks"
    using assms by simp
  then show ?thesis unfolding holds_pairs_def k .
qed

lemma holds_pairsD:
  assumes "holds_pairs this pg dir tm ps"
  shows "\<exists>ks. distinct ks \<and> set ks = fst ` set ps \<and> tm = map (task_entry this pg dir ps) ks
              \<and> map fst tm = ks"
proof -
  from assms have a: "distinct (map fst tm)" and b: "set (map fst tm) = set (map fst ps)"
    and c: "tm = map (task_entry this pg dir ps) (map fst tm)"
    unfolding holds_pairs_def by blast+
  have b': "set (map fst tm) = fst ` set ps" using b by (simp only: set_map)
  show ?thesis by (rule exI[of _ "map fst tm"]) (use a b' c in blast)
qed

lemma add_version_holds:
  assumes "holds_pairs this pg dir tm ps" and "t \<notin> set Object_prototype_keys"
  shows "\<exists>tm'. add_version this pg dir tm t v = Inr tm' \<and> holds_pairs this pg dir tm' (ps @ [(t, v)])"
proof -
  let ?ps = "ps @ [(t, v)]"
  from holds_pairsD[OF assms(1)] obtain ks where d: "distinct ks" and s: "set ks = fst ` set ps"
    and e: "tm = map (task_entry this pg dir ps) ks" and k: "map fst tm = ks" by blast
  have ft: "fst ` set tm = set ks" using k by (metis set_map)
  show ?thesis
  proof (cases "js_lookup tm t")
    case Inherited
    then show ?thesis using assms(2) js_lookup_Inherited by blast
  next
    case Missing
    then have "t \<notin> fst ` set tm" by (rule js_lookup_Missing)
    then have nt: "t \<notin> set ks" using ft by simp
    then have np: "t \<notin> fst ` set ps" using s by simp
    let ?tm = "tm @ [(t, (new_TaskBranch this t (Some pg) dir)\<lparr>Versions := [v]\<rparr>)]"
    have a: "add_version this pg dir tm t v = Inr ?tm" using Missing by (simp add: add_version_def)
    have "map (task_entry this pg dir ?ps) ks = map (task_entry this pg dir ps) ks"
      using nt by (intro map_cong) (auto simp: task_entry_def versions_of_def)
    moreover have "versions_of t ?ps = [v]"
      using versions_of_absent[OF np] by (simp add: versions_of_append) (simp add: versions_of_def)
    then have "task_entry this pg dir ?ps t = (t, (new_TaskBranch this t (Some pg) dir)\<lparr>Versions := [v]\<rparr>)"
      by (simp add: task_entry_def new_TaskBranch_def)
    ultimately have "?tm = map (task_entry this pg dir ?ps) (ks @ [t])" using e by simp
    moreover have "distinct (ks @ [t])" using d nt by simp
    moreover have "set (ks @ [t]) = fst ` set ?ps" using s by auto
    ultimately have "holds_pairs this pg dir ?tm ?ps" by (intro holds_pairsI[of "ks @ [t]"])
    then show ?thesis using a by blast
  next
    case (Own x)
    let ?f = "\<lambda>e. if fst e = t then (fst e, (snd e)\<lparr>Versions := Versions (snd e) @ [v]\<rparr>) else e"
    have a: "add_version this pg dir tm t v = Inr (map ?f tm)" using Own by (simp add: add_version_def)
    have "map_of tm t = Some x" using Own by (rule js_lookup_Own)
    then have "(t, x) \<in> set tm" by (rule map_of_SomeD)
    then have "t \<in> fst ` set tm" by force
    then have tin: "t \<in> set ks" using ft by simp
    have "map ?f (map (task_entry this pg dir ps) ks) = map (task_entry this pg dir ?ps) ks"
      by (auto simp: task_entry_def versions_of_def)
    then have "map ?f tm = map (task_entry this pg dir ?ps) ks" using e by simp
    moreover have "set ks = fst ` set ?ps" using s tin by auto
    ultimately have "holds_pairs this pg dir (map ?f tm) ?ps" using d by (intro holds_pairsI[of ks])
    then show ?thesis using a by blast
  qed
qed

lemma add_versions_holds:
  "holds_pairs this pg dir tm ps \<Longrightarrow> no_inherited_name qs \<Longrightarrow>
   \<exists>tm'. add_versions this pg dir tm qs = Inr tm' \<and> holds_pairs this pg dir tm' (ps @ qs)"
proof (induction qs arbitrary: tm ps)
  case Nil
  then show ?case by simp
next
  case (Cons q qs)
  have n: "fst q \<notin> set Object_prototype_keys" "no_inherited_name qs"
    using Cons.prems(2) by (simp_all add: no_inherited_name_def)
  from add_version_holds[OF Cons.prems(1) n(1), of "snd q"] obtain tm1 where
    a: "add_version this pg dir tm (fst q) (snd q) = Inr tm1"
    and h: "holds_pairs this pg dir tm1 (ps @ [q])" by auto
  from Cons.IH[OF h n(2)] show ?case using a by simp
qed

lemma scan_files_add_versions:
  "\<forall>f \<in> set files. \<exists>n. lstatSync fs (path_join dir f) = Inr n \<Longrightarrow>
   scan_files fs this pg dir pre tm files
     = add_versions this pg dir tm (discovered fs pg dir pre files)"
proof (induction files arbitrary: tm)
  case Nil
  show ?case by (simp add: discovered_def)
next
  case (Cons f files)
  from Cons.prems obtain n where n: "lstatSync fs (path_join dir f) = Inr n" by auto
  have r: "\<forall>f \<in> set files. \<exists>n. lstatSync fs (path_join dir f) = Inr n" using Cons.prems by simp
  have d: "discovered fs pg dir pre (f # files) =
             (if n = File then (case decode pg pre f of None \<Rightarrow> [] | Some tv \<Rightarrow> [tv]) else [])
             @ discovered fs pg dir pre files"
    using n by (simp add: discovered_def)
  show ?case
  proof (cases "n = File \<and> decode pg pre f \<noteq> None")
    case False
    then have "scan_file fs this pg dir pre tm f = Inr tm"
      using n by (cases "decode pg pre f") (auto simp: scan_file_decode)
    moreover have "discovered fs pg dir pre (f # files) = discovered fs pg dir pre files"
      using d False by (cases "decode pg pre f") auto
    ultimately show ?thesis using Cons.IH[OF r, of tm] by simp
  next
    case True
    then obtain tv where tv: "decode pg pre f = Some tv" and nf: "n = File" by auto
    have s: "scan_file fs this pg dir pre tm f = add_version this pg dir tm (fst tv) (snd tv)"
      using n nf tv by (simp add: scan_file_decode)
    have dd: "discovered fs pg dir pre (f # files) = tv # discovered fs pg dir pre files"
      using d nf tv by simp
    show ?thesis
    proof (cases "add_version this pg dir tm (fst tv) (snd tv)")
      case (Inl e)
      then show ?thesis using s dd by simp
    next
      case (Inr tm1)
      then show ?thesis using s dd Cons.IH[OF r, of tm1] by simp
    qed
  qed
qed

lemma tasks_of_holds:
  assumes "holds_pairs this pg dir tm pairs"
  shows "sort_by (\<lambda>a b. compare (task_Name a) (task_Name b))
           (map (\<lambda>e. (snd e)\<lparr>Versions := string_sort (Versions (snd e))\<rparr>) tm)
         = tasks_of_pairs this pg dir pairs"
proof -
  let ?h = "\<lambda>task. \<lparr>task_Parent = this, task_Name = task, task_Program = Some pg, task_Dir = dir,
                     Versions = sort (versions_of task pairs)\<rparr>"
  from holds_pairsD[OF assms] obtain ks where d: "distinct ks" and s: "set ks = fst ` set pairs"
    and e: "tm = map (task_entry this pg dir pairs) ks" by blast
  have "map (\<lambda>e. (snd e)\<lparr>Versions := string_sort (Versions (snd e))\<rparr>)
          (map (task_entry this pg dir pairs) ks) = map ?h ks"
    by (simp add: task_entry_def string_sort_sort)
  then have m: "map (\<lambda>e. (snd e)\<lparr>Versions := string_sort (Versions (snd e))\<rparr>) tm = map ?h ks"
    using e by simp
  have "sort_by (\<lambda>a b. compare (task_Name a) (task_Name b)) (map ?h ks) = map ?h (sort ks)"
    by (rule sort_by_keys[OF d]) simp
  moreover have "sort ks = sort (remdups (map fst pairs))"
    using d s by (intro sorted_distinct_set_unique) simp_all
  ultimately show ?thesis using m by (simp add: tasks_of_pairs_def)
qed

lemma scan_files_tasks:
  assumes "\<forall>f \<in> set files. \<exists>n. lstatSync fs (path_join dir f) = Inr n"
    and "no_inherited_name (discovered fs pg dir pre files)"
  shows "\<exists>tm. scan_files fs this pg dir pre [] files = Inr tm
           \<and> holds_pairs this pg dir tm (discovered fs pg dir pre files)"
  using add_versions_holds[OF holds_pairs_Nil assms(2), of this pg dir]
  by (simp add: scan_files_add_versions[OF assms(1)])

text \<open>What \<open>Tasks\<close> returns for a directory it can read.\<close>

lemma Tasks_eq:
  assumes "wf_fs fs"
    and "ProgramDir this = Some pd" and "map_of pd prog = Some progDir"
    and "map_of (site_programs (siteInfo g)) prog = Some pg"
    and "getParent this ''show'' = Inr sh" and "getParent this ''group'' = Inr gr"
    and "getParent this ''unit'' = Inr un"
    and "readdirSync fs (path_join (Dir this) progDir) = Inr files"
    and "no_inherited_name
           (discovered fs pg (path_join (Dir this) progDir)
              (Name sh @ ''_'' @ Name gr @ ''_'' @ Name un @ ''_'' @ Name this @ ''_'') files)"
  shows "Tasks g fs this prog =
           Inr (tasks_of_pairs this pg (path_join (Dir this) progDir)
                  (discovered fs pg (path_join (Dir this) progDir)
                     (Name sh @ ''_'' @ Name gr @ ''_'' @ Name un @ ''_'' @ Name this @ ''_'') files))"
proof -
  let ?dir = "path_join (Dir this) progDir"
  let ?pre = "Name sh @ ''_'' @ Name gr @ ''_'' @ Name un @ ''_'' @ Name this @ ''_''"
  have pa: "ProgramAt this prog = Inr (Some progDir)"
    using assms(2,3) by (simp add: ProgramAt_def js_lookup_Some)
  have ex: "existsSync fs ?dir" using readdirSync_Inr[OF assms(8)] by simp
  have pg: "js_lookup (site_programs (siteInfo g)) prog = Own pg"
    using assms(4) by (rule js_lookup_Some)
  have l: "\<forall>f \<in> set files. \<exists>n. lstatSync fs (path_join ?dir f) = Inr n"
    using lstat_child[OF assms(1) assms(8)] by blast
  from scan_files_tasks[OF l assms(9), of this] obtain tm where
    sc: "scan_files fs this pg ?dir ?pre [] files = Inr tm"
    and h: "holds_pairs this pg ?dir tm (discovered fs pg ?dir ?pre files)" by blast
  show ?thesis
    using pa ex pg assms(5,6,7,8) sc tasks_of_holds[OF h]
    by (simp add: Tasks_def Let_def)
qed

section \<open>The order in which the system lists a directory\<close>

lemma perm_node_at:
  assumes "distinct (map fst fs)" and "mset fs' = mset fs"
  shows "node_at fs' k = node_at fs k"
proof -
  have "mset (map fst fs') = mset (map fst fs)" using assms(2) by simp
  then have d: "distinct (map fst fs')" using assms(1) by (metis mset_eq_imp_distinct_iff)
  have "set fs' = set fs" using assms(2) by (rule mset_eq_setD)
  then have "map_of fs' = map_of fs" using map_of_inject_set[OF d assms(1)] by simp
  then show ?thesis by (simp add: node_at_def)
qed

lemma walk_cong:
  "(\<And>k. node_at fs' k = node_at fs k) \<Longrightarrow> walk fs' cur cs = walk fs cur cs"
  by (induction cs arbitrary: cur) (simp_all split: option.splits node.splits)

lemma locate_cong:
  "(\<And>k. node_at fs' k = node_at fs k) \<Longrightarrow> locate fs' p = locate fs p"
  using walk_cong[of fs' fs] by (simp add: locate_def split: sum.splits option.splits)

lemma perm_locate:
  "distinct (map fst fs) \<Longrightarrow> mset fs' = mset fs \<Longrightarrow> locate fs' p = locate fs p"
  by (rule locate_cong) (rule perm_node_at)

lemma perm_wf_fs:
  assumes "wf_fs fs" and "mset fs' = mset fs"
  shows "wf_fs fs'"
proof -
  have d: "distinct (map fst fs)" using assms(1) by (simp add: wf_fs_def)
  have "mset (map fst fs') = mset (map fst fs)" using assms(2) by simp
  then have d': "distinct (map fst fs')" using d by (metis mset_eq_imp_distinct_iff)
  have s: "set fs' = set fs" using assms(2) by (rule mset_eq_setD)
  have "wf_entry fs' e = wf_entry fs e" for e
    by (simp add: wf_entry_def perm_node_at[OF d assms(2)])
  then show ?thesis using assms(1) d' s by (simp add: wf_fs_def list_all_iff)
qed

lemma perm_children: "mset fs' = mset fs \<Longrightarrow> mset (children fs' k) = mset (children fs k)"
  by (simp add: children_def)

lemma perm_readdirSync:
  assumes "distinct (map fst fs)" and "mset fs' = mset fs" and "readdirSync fs d = Inr files"
  shows "\<exists>files'. readdirSync fs' d = Inr files' \<and> mset files' = mset files"
proof -
  from assms(3) obtain k n where l: "locate fs d = Inr (k, n)"
    by (cases "locate fs d") (auto simp: readdirSync_def)
  have "n \<noteq> File" using assms(3) l by (auto simp: readdirSync_def)
  then obtain m a where n: "n = Directory m a" by (cases n) auto
  have f: "files = children fs k" using assms(3) l n by (simp add: readdirSync_def)
  have "readdirSync fs' d = Inr (children fs' k)"
    using l n perm_locate[OF assms(1,2), of d] by (simp add: readdirSync_def)
  then show ?thesis using f perm_children[OF assms(2), of k] by simp
qed

lemma mset_concat_map: "mset (concat (map g xs)) = (\<Sum>x \<in># mset xs. mset (g x))"
  by (induction xs) simp_all

lemma perm_discovered:
  assumes "distinct (map fst fs)" and "mset fs' = mset fs" and "mset files' = mset files"
  shows "mset (discovered fs' pg dir pre files') = mset (discovered fs pg dir pre files)"
proof -
  have "lstatSync fs' p = lstatSync fs p" for p
    by (simp add: lstatSync_def perm_locate[OF assms(1,2)])
  then show ?thesis using assms(3) by (simp add: discovered_def mset_concat_map)
qed

lemma perm_tasks_of_pairs:
  assumes "mset ps' = mset ps"
  shows "tasks_of_pairs this pg dir ps' = tasks_of_pairs this pg dir ps"
proof -
  have "mset (versions_of t ps') = mset (versions_of t ps)" for t
    using assms by (simp add: versions_of_def)
  then have v: "sort (versions_of t ps') = sort (versions_of t ps)" for t
    by (rule sort_mset_eq)
  have "set (map fst ps') = set (map fst ps)" using mset_eq_setD[OF assms] by simp
  then have "sort (remdups (map fst ps')) = sort (remdups (map fst ps))"
    by (rule sort_remdups_eq)
  then show ?thesis using v by (simp add: tasks_of_pairs_def)
qed

lemma perm_no_inherited_name:
  "mset ps' = mset ps \<Longrightarrow> no_inherited_name ps' = no_inherited_name ps"
  using mset_eq_setD[of ps' ps] by (simp add: no_inherited_name_def list_all_iff)

lemma tasks_of_pairs_names:
  "map task_Name (tasks_of_pairs this pg dir ps) = sort (remdups (map fst ps))"
  by (simp add: tasks_of_pairs_def comp_def)

lemma tasks_of_pairs_versions:
  "t \<in> set (tasks_of_pairs this pg dir ps) \<Longrightarrow> Versions t = sort (versions_of (task_Name t) ps)"
  by (auto simp: tasks_of_pairs_def)

section \<open>The error callback of a background command\<close>










section \<open>Discovery of tasks\<close>

text \<open>
  Claim C10. For a part branch and a program declared in its \<open>ProgramDir\<close>,
  \<open>Tasks(prog)\<close> returns the empty list, and no error, when the directory of the program
  does not exist.
\<close>

theorem Tasks_missing_directory:
  assumes "ProgramDir this = Some pd" and "map_of pd prog = Some progDir"
    and "\<not> existsSync fs (path_join (Dir this) progDir)"
  shows "Tasks g fs this prog = Inr []"
  using assms by (simp add: Tasks_def ProgramAt_def js_lookup_def)

theorem Tasks_missing_directory_witness:
  "Tasks example_globals [([''show''], Directory None [])] example_part ''nuke'' = Inr []"
proof -
  have h1: "ProgramDir example_part = Some [(''nuke'', ''scenes'')]"
    by (simp add: example_part_def)
  have h2: "map_of [(''nuke'', ''scenes'')] ''nuke'' = Some ''scenes''"
    by simp
  have h3: "\<not> existsSync [([''show''], Directory None [])] (path_join (Dir example_part) ''scenes'')"
    by code_simp
  show ?thesis
    by (rule Tasks_missing_directory[OF h1 h2 h3])
qed

lemma example_discovery: "Tasks example_globals example_scenes example_part ''nuke'' = Inr example_tasks"
  by code_simp

text \<open>
  Claim C9. Let \<open>Tasks(prog)\<close> read the directory of a declared program of the schema in a
  well-formed file system, and let \<open>pairs\<close> be the tasks and versions that the regular
  files of the directory stand for, none of them under a task name that objects inherit. Then
  \<open>Tasks\<close> returns one task for each task name of \<open>pairs\<close>, the names in ascending
  order, each task with all the versions of its name in ascending order of their characters;
  and the result is the same for every order in which the system lists the entries.
\<close>

theorem Tasks_sorted:
  assumes "wf_fs fs"
    and "ProgramDir this = Some pd" and "map_of pd prog = Some progDir"
    and "map_of (site_programs (siteInfo g)) prog = Some pg"
    and "getParent this ''show'' = Inr sh" and "getParent this ''group'' = Inr gr"
    and "getParent this ''unit'' = Inr un"
    and "readdirSync fs (path_join (Dir this) progDir) = Inr files"
    and "pairs = discovered fs pg (path_join (Dir this) progDir)
                   (Name sh @ ''_'' @ Name gr @ ''_'' @ Name un @ ''_'' @ Name this @ ''_'') files"
    and "no_inherited_name pairs"
  shows "\<exists>ts. Tasks g fs this prog = Inr ts
           \<and> map task_Name ts = sort (remdups (map fst pairs))
           \<and> sorted (map task_Name ts) \<and> distinct (map task_Name ts)
           \<and> (\<forall>t \<in> set ts. Versions t = sort (versions_of (task_Name t) pairs)
                 \<and> sorted (Versions t)
                 \<and> task_Parent t = this \<and> task_Program t = Some pg
                 \<and> task_Dir t = path_join (Dir this) progDir)
           \<and> (\<forall>fs'. mset fs' = mset fs \<longrightarrow> Tasks g fs' this prog = Inr ts)"
proof -
  let ?dir = "path_join (Dir this) progDir"
  let ?pre = "Name sh @ ''_'' @ Name gr @ ''_'' @ Name un @ ''_'' @ Name this @ ''_''"
  let ?ts = "tasks_of_pairs this pg ?dir pairs"
  have ni: "no_inherited_name (discovered fs pg ?dir ?pre files)" using assms(9,10) by simp
  have t: "Tasks g fs this prog = Inr ?ts"
    using Tasks_eq[OF assms(1-8) ni] assms(9) by simp
  have n: "map task_Name ?ts = sort (remdups (map fst pairs))" by (rule tasks_of_pairs_names)
  have v: "\<forall>t \<in> set ?ts. Versions t = sort (versions_of (task_Name t) pairs)
                 \<and> sorted (Versions t)
                 \<and> task_Parent t = this \<and> task_Program t = Some pg \<and> task_Dir t = ?dir"
    by (auto simp: tasks_of_pairs_def)
  have p: "\<forall>fs'. mset fs' = mset fs \<longrightarrow> Tasks g fs' this prog = Inr ?ts"
  proof (intro allI impI)
    fix fs' :: fs
    assume m: "mset fs' = mset fs"
    have d: "distinct (map fst fs)" using assms(1) by (simp add: wf_fs_def)
    have w: "wf_fs fs'" using assms(1) m by (rule perm_wf_fs)
    from perm_readdirSync[OF d m assms(8)] obtain files' where
      r: "readdirSync fs' ?dir = Inr files'" and mf: "mset files' = mset files" by blast
    have md: "mset (discovered fs' pg ?dir ?pre files') = mset pairs"
      using perm_discovered[OF d m mf] assms(9) by simp
    then have ni': "no_inherited_name (discovered fs' pg ?dir ?pre files')"
      using perm_no_inherited_name assms(10) by blast
    have "Tasks g fs' this prog = Inr (tasks_of_pairs this pg ?dir (discovered fs' pg ?dir ?pre files'))"
      by (rule Tasks_eq[OF w assms(2-7) r ni'])
    then show "Tasks g fs' this prog = Inr ?ts"
      using perm_tasks_of_pairs[OF md] by simp
  qed
  show ?thesis
    by (rule exI[of _ ?ts]) (use t n v p in simp)
qed

theorem Tasks_sorted_witness:
  "Tasks example_globals example_scenes example_part ''nuke'' = Inr example_tasks
   \<and> map task_Name example_tasks = [''layout_fix'', ''main'']
   \<and> map Versions example_tasks = [[''v100'', ''v20''], [''v001'', ''v002'', ''v010'']]
   \<and> Tasks example_globals (rev example_scenes) example_part ''nuke'' = Inr example_tasks"
proof -
  have h1: "wf_fs example_scenes" by (rule example_wf)
  have h2: "ProgramDir example_part = Some [(''nuke'', ''scenes'')]"
    by (simp add: example_part_def)
  have h3: "map_of [(''nuke'', ''scenes'')] ''nuke'' = Some ''scenes''" by simp
  have h4: "map_of (site_programs (siteInfo example_globals)) ''nuke'' = Some example_nuke"
    by (simp add: example_globals_def example_info_def)
  have h5: "getParent example_part ''show'' = Inr example_show" by code_simp
  have h6: "getParent example_part ''group'' = Inr example_group" by code_simp
  have h7: "getParent example_part ''unit'' = Inr example_unit" by code_simp
  have h8: "readdirSync example_scenes (path_join (Dir example_part) ''scenes'') =
              Inr [''sh01_g1_u1_comp_main_v010.nk'', ''sh01_g1_u1_comp_main_v002.nk'',
                   ''sh01_g1_u1_comp_layout_fix_v20.nk'', ''sh01_g1_u1_comp_main_v000.nk'',
                   ''sh01_g1_u1_comp_main_v001.nk'', ''sh01_g1_u1_comp_layout_fix_v100.nk'',
                   ''notes.txt'']"
    by code_simp
  have h9: "[(''main'', ''v010''), (''main'', ''v002''), (''layout_fix'', ''v20''),
             (''main'', ''v001''), (''layout_fix'', ''v100'')]
            = discovered example_scenes example_nuke (path_join (Dir example_part) ''scenes'')
                (Name example_show @ ''_'' @ Name example_group @ ''_'' @ Name example_unit @ ''_''
                 @ Name example_part @ ''_'')
                [''sh01_g1_u1_comp_main_v010.nk'', ''sh01_g1_u1_comp_main_v002.nk'',
                 ''sh01_g1_u1_comp_layout_fix_v20.nk'', ''sh01_g1_u1_comp_main_v000.nk'',
                 ''sh01_g1_u1_comp_main_v001.nk'', ''sh01_g1_u1_comp_layout_fix_v100.nk'',
                 ''notes.txt'']"
    by code_simp
  have h10: "no_inherited_name [(''main'', ''v010''), (''main'', ''v002''), (''layout_fix'', ''v20''),
                                (''main'', ''v001''), (''layout_fix'', ''v100'')]"
    by code_simp
  from Tasks_sorted[OF h1 h2 h3 h4 h5 h6 h7 h8 h9 h10] obtain ts where
    t: "Tasks example_globals example_scenes example_part ''nuke'' = Inr ts"
    and p: "\<forall>fs'. mset fs' = mset example_scenes \<longrightarrow>
              Tasks example_globals fs' example_part ''nuke'' = Inr ts"
    by blast
  have ts: "ts = example_tasks" using t example_discovery by simp
  have "map task_Name example_tasks = [''layout_fix'', ''main'']"
    "map Versions example_tasks = [[''v100'', ''v20''], [''v001'', ''v002'', ''v010'']]"
    by (simp_all add: example_tasks_def)
  moreover have "Tasks example_globals (rev example_scenes) example_part ''nuke'' = Inr example_tasks"
    using p ts by simp
  ultimately show ?thesis using t ts by simp
qed

end
